theory Spec2Isabelle
  imports Complex_Main "HOL-Library.Sublist"
begin

section \<open>JavaScript strings\<close>

text \<open>
  A JavaScript string is a sequence of UTF-16 code units.  The model covers the strings
  whose code units lie below 256 (ASCII and the Latin-1 supplement): one \<^typ>\<open>char\<close> per
  code unit, so \<^term>\<open>length\<close> is \<open>.length\<close> and \<^term>\<open>take\<close> is \<open>.substring(0, n)\<close>.
\<close>

definition code :: "char \<Rightarrow> nat" where
  "code c = of_char c"

text \<open>The character classes \<open>\s\<close>, \<open>\w\<close> and \<open>\d\<close> of a regular expression
  without the \<open>u\<close> flag, and the characters \<open>.\<close> matches without the \<open>s\<close> flag.\<close>

definition isSpace :: "char \<Rightarrow> bool" where
  "isSpace c = (let n = code c in (9 \<le> n \<and> n \<le> 13) \<or> n = 32 \<or> n = 160)"

definition isDigit :: "char \<Rightarrow> bool" where
  "isDigit c = (let n = code c in 48 \<le> n \<and> n \<le> 57)"

definition isWordChar :: "char \<Rightarrow> bool" where
  "isWordChar c =
     (let n = code c in
        (48 \<le> n \<and> n \<le> 57) \<or> (65 \<le> n \<and> n \<le> 90) \<or> n = 95 \<or> (97 \<le> n \<and> n \<le> 122))"

definition isLineTerminator :: "char \<Rightarrow> bool" where
  "isLineTerminator c = (code c = 10 \<or> code c = 13)"

text \<open>\<open>String.prototype.toLowerCase\<close> on code units below 256: the ASCII capitals and
  the Latin-1 capitals U+00C0 .. U+00DE (U+00D7, the multiplication sign, apart) move up
  by 32; everything else is unchanged.\<close>

definition lowerChar :: "char \<Rightarrow> char" where
  "lowerChar c =
     (let n = code c in
        if (65 \<le> n \<and> n \<le> 90) \<or> (192 \<le> n \<and> n \<le> 222 \<and> n \<noteq> 215)
        then char_of (n + 32) else c)"

definition toLowerCase :: "string \<Rightarrow> string" where
  "toLowerCase s = map lowerChar s"

text \<open>The case folding of a regular expression with the \<open>i\<close> flag (Canonicalize of
  ECMA-262, without \<open>u\<close>): a character is compared by its upper-case form.  Below 256
  that pairs the ASCII letters and the Latin-1 letters U+00E0 .. U+00FE (U+00F7 apart)
  with their capitals; the capitals of U+00B5 and U+00FF lie outside the range, so these
  two only match themselves.\<close>

definition canonicalize :: "char \<Rightarrow> char" where
  "canonicalize c =
     (let n = code c in
        if (97 \<le> n \<and> n \<le> 122) \<or> (224 \<le> n \<and> n \<le> 254 \<and> n \<noteq> 247)
        then char_of (n - 32) else c)"

fun startsWith :: "string \<Rightarrow> string \<Rightarrow> bool" where
  "startsWith s [] = True"
| "startsWith [] (p # ps) = False"
| "startsWith (c # cs) (p # ps) = (c = p \<and> startsWith cs ps)"

text \<open>\<open>s.includes(w)\<close>: \<open>w\<close> occurs in \<open>s\<close> as a contiguous substring.\<close>

fun includes_str :: "string \<Rightarrow> string \<Rightarrow> bool" where
  "includes_str [] w = (w = [])"
| "includes_str (c # cs) w = (startsWith (c # cs) w \<or> includes_str cs w)"

text \<open>\<open>s.split(' ')\<close>: the fragments between single separators; an empty string gives
  one empty fragment, two adjacent separators give an empty fragment between them.\<close>

fun splitOn :: "char \<Rightarrow> string \<Rightarrow> string list" where
  "splitOn d [] = [[]]"
| "splitOn d (c # cs) =
     (if c = d then [] # splitOn d cs
      else (case splitOn d cs of [] \<Rightarrow> [[c]] | w # ws \<Rightarrow> (c # w) # ws))"

definition trim :: "string \<Rightarrow> string" where
  "trim s = rev (dropWhile isSpace (rev (dropWhile isSpace s)))"

text \<open>A number in a template literal: its decimal digits.\<close>

definition digitChar :: "nat \<Rightarrow> char" where
  "digitChar d = (''0123456789'' ! d)"

fun showNat :: "nat \<Rightarrow> string" where
  "showNat n = (if n < 10 then [digitChar n] else showNat (n div 10) @ [digitChar (n mod 10)])"

declare showNat.simps [simp del]

section \<open>Regular expressions\<close>

text \<open>
  The regular expressions of the source are kept as syntax trees and run by a
  backtracking matcher that follows ECMA-262: alternatives left to right, a greedy
  quantifier tries one more repetition before it tries to go on, a lazy one the other way
  round, an iteration of a quantifier whose minimum is used up must consume input.
  \<open>Cls p\<close> is a character class or escape (\<open>[^>]\<close>, \<open>\s\<close>, \<open>.\<close>), \<open>Rep greedy min max r\<close>
  a quantifier (\<open>max = None\<close>: unbounded), \<open>Grp n r\<close> the capturing group number \<open>n\<close>,
  \<open>Bref n\<close> the backreference \<open>\n\<close>, \<open>Wordb\<close> the assertion \<open>\b\<close>.
\<close>

datatype rx =
    Lit char
  | Cls "char \<Rightarrow> bool"
  | Eps
  | Seq rx rx
  | Alt rx rx
  | Rep bool nat "nat option" rx
  | Grp nat rx
  | Bref nat
  | Wordb

text \<open>The matcher's state: the input behind the current position (nearest character
  first), the input ahead of it, the number of characters passed since the match attempt
  began, and the captures made so far.\<close>

record mstate =
  behind :: string
  ahead :: string
  pos :: nat
  caps :: "(nat \<times> string) list"

type_synonym cont = "mstate \<Rightarrow> mstate option"

definition step1 :: "mstate \<Rightarrow> mstate" where
  "step1 st = (case ahead st of [] \<Rightarrow> st
               | c # cs \<Rightarrow> st\<lparr>behind := c # behind st, ahead := cs, pos := pos st + 1\<rparr>)"

text \<open>One step for each character of \<open>t\<close>.\<close>

fun stepOver :: "string \<Rightarrow> mstate \<Rightarrow> mstate" where
  "stepOver [] st = st"
| "stepOver (c # t) st = stepOver t (step1 st)"

definition sameChar :: "bool \<Rightarrow> char \<Rightarrow> char \<Rightarrow> bool" where
  "sameChar ci a b = (if ci then canonicalize a = canonicalize b else a = b)"

fun samePrefix :: "bool \<Rightarrow> string \<Rightarrow> string \<Rightarrow> bool" where
  "samePrefix ci s [] = True"
| "samePrefix ci [] (p # ps) = False"
| "samePrefix ci (c # cs) (p # ps) = (sameChar ci c p \<and> samePrefix ci cs ps)"

definition atWordBoundary :: "mstate \<Rightarrow> bool" where
  "atWordBoundary st =
     ((case behind st of [] \<Rightarrow> False | b # _ \<Rightarrow> isWordChar b)
      \<noteq> (case ahead st of [] \<Rightarrow> False | a # _ \<Rightarrow> isWordChar a))"

text \<open>What was consumed between the state \<open>st\<close> and a later state \<open>st'\<close>.\<close>

definition consumed :: "mstate \<Rightarrow> mstate \<Rightarrow> string" where
  "consumed st st' = take (pos st' - pos st) (ahead st)"

text \<open>
  RepeatMatcher of ECMA-262.  \<open>m\<close> matches the quantified atom.  The recursion is on the
  first argument, a list as long as the number of iterations that can still follow: an
  iteration uses up one of the minimum or, once the minimum is zero, at least one
  character of the input.
\<close>

fun rep :: "'a list \<Rightarrow> (mstate \<Rightarrow> cont \<Rightarrow> mstate option) \<Rightarrow> bool \<Rightarrow> nat \<Rightarrow> nat option
            \<Rightarrow> mstate \<Rightarrow> cont \<Rightarrow> mstate option" where
  "rep [] m greedy mn mx st k = k st"
| "rep (f # fuel) m greedy mn mx st k =
     (if mx = Some 0 then k st
      else
        let again = (\<lambda>y. if mn = 0 \<and> pos y = pos st then None
                          else rep fuel m greedy (mn - 1) (map_option (\<lambda>x. x - 1) mx) y k)
        in if mn \<noteq> 0 then m st again
           else if greedy then (case m st again of Some z \<Rightarrow> Some z | None \<Rightarrow> k st)
           else (case k st of Some z \<Rightarrow> Some z | None \<Rightarrow> m st again))"

fun rmatch :: "bool \<Rightarrow> rx \<Rightarrow> mstate \<Rightarrow> cont \<Rightarrow> mstate option" where
  "rmatch ci (Lit c) st k =
     (case ahead st of [] \<Rightarrow> None
      | a # _ \<Rightarrow> if sameChar ci a c then k (step1 st) else None)"
| "rmatch ci (Cls p) st k =
     (case ahead st of [] \<Rightarrow> None
      | a # _ \<Rightarrow> if p a then k (step1 st) else None)"
| "rmatch ci Eps st k = k st"
| "rmatch ci (Seq r1 r2) st k = rmatch ci r1 st (\<lambda>st'. rmatch ci r2 st' k)"
| "rmatch ci (Alt r1 r2) st k =
     (case rmatch ci r1 st k of Some z \<Rightarrow> Some z | None \<Rightarrow> rmatch ci r2 st k)"
| "rmatch ci (Rep greedy mn mx r) st k =
     rep (replicate mn CHR ''.'' @ ahead st) (\<lambda>s c. rmatch ci r s c) greedy mn mx st k"
| "rmatch ci (Grp n r) st k =
     rmatch ci r st (\<lambda>st'. k (st'\<lparr>caps := (n, consumed st st') # caps st'\<rparr>))"
| "rmatch ci (Bref n) st k =
     (case map_of (caps st) n of
        None \<Rightarrow> k st
      | Some t \<Rightarrow> if samePrefix ci (ahead st) t then k (stepOver t st) else None)"
| "rmatch ci Wordb st k = (if atWordBoundary st then k st else None)"

text \<open>Abbreviations for writing the source's patterns.\<close>

definition Str :: "string \<Rightarrow> rx" where
  "Str s = foldr (\<lambda>c r. Seq (Lit c) r) s Eps"

definition seqs :: "rx list \<Rightarrow> rx" where
  "seqs rs = foldr Seq rs Eps"

fun alts :: "rx list \<Rightarrow> rx" where
  "alts [] = Eps"
| "alts [r] = r"
| "alts (r # rs) = Alt r (alts rs)"

definition Star :: "rx \<Rightarrow> rx" where "Star r = Rep True 0 None r"
definition StarLazy :: "rx \<Rightarrow> rx" where "StarLazy r = Rep False 0 None r"
definition Plus :: "rx \<Rightarrow> rx" where "Plus r = Rep True 1 None r"
definition Opt :: "rx \<Rightarrow> rx" where "Opt r = Rep True 0 (Some 1) r"

definition anyChar :: "char \<Rightarrow> bool" where "anyChar c = True"
definition dotChar :: "char \<Rightarrow> bool" where "dotChar c = (\<not> isLineTerminator c)"
definition notChar :: "char \<Rightarrow> char \<Rightarrow> bool" where "notChar x c = (c \<noteq> x)"
definition quoteChar :: "char \<Rightarrow> bool" where "quoteChar c = (c = CHR 0x22 \<or> c = CHR 0x27)"
definition notQuote :: "char \<Rightarrow> bool" where "notQuote c = (\<not> quoteChar c)"

text \<open>One match attempt at the current position (the regular expression's
  \<open>[[RegExpMatcher]]\<close>): the final state of the first way to match, if there is one.\<close>

definition matchHere :: "bool \<Rightarrow> rx \<Rightarrow> string \<Rightarrow> string \<Rightarrow> mstate option" where
  "matchHere ci r bh s = rmatch ci r \<lparr>behind = bh, ahead = s, pos = 0, caps = []\<rparr> Some"

text \<open>A successful match: the matched text and the captures.\<close>

record hit =
  whole :: string
  groups :: "(nat \<times> string) list"

definition hitOf :: "string \<Rightarrow> mstate \<Rightarrow> hit" where
  "hitOf s st' = \<lparr>whole = take (pos st') s, groups = caps st'\<rparr>"

text \<open>\<open>re.exec(s)\<close> for a pattern without the \<open>g\<close> flag (also \<open>s.match(re)\<close> and
  \<open>re.test(s)\<close>): the leftmost position at which the pattern matches.\<close>

fun execFrom :: "bool \<Rightarrow> rx \<Rightarrow> string \<Rightarrow> string \<Rightarrow> hit option" where
  "execFrom ci r bh [] = map_option (hitOf []) (matchHere ci r bh [])"
| "execFrom ci r bh (c # cs) =
     (case matchHere ci r bh (c # cs) of
        Some st' \<Rightarrow> Some (hitOf (c # cs) st')
      | None \<Rightarrow> execFrom ci r (c # bh) cs)"

definition exec :: "bool \<Rightarrow> rx \<Rightarrow> string \<Rightarrow> hit option" where
  "exec ci r s = execFrom ci r [] s"

definition test :: "bool \<Rightarrow> rx \<Rightarrow> string \<Rightarrow> bool" where
  "test ci r s = (exec ci r s \<noteq> None)"

text \<open>
  The scan of a pattern with the \<open>g\<close> flag, as \<open>s.match(re)\<close> and \<open>s.replace(re, t)\<close>
  run it: the successive non-overlapping matches from left to right and the characters
  between them.  After a match the scan goes on behind it; after an empty match it moves
  on by one character.  The recursion is on the first argument, which starts as the
  input: every step passes at least one character.
\<close>

datatype piece = Keep char | Hit string

definition hitAtEnd :: "bool \<Rightarrow> rx \<Rightarrow> string \<Rightarrow> piece list" where
  "hitAtEnd ci r bh = (if matchHere ci r bh [] = None then [] else [Hit []])"

fun scan :: "'a list \<Rightarrow> bool \<Rightarrow> rx \<Rightarrow> string \<Rightarrow> string \<Rightarrow> piece list" where
  "scan [] ci r bh s = hitAtEnd ci r bh"
| "scan (f # fuel) ci r bh [] = hitAtEnd ci r bh"
| "scan (f # fuel) ci r bh (c # cs) =
     (case matchHere ci r bh (c # cs) of
        None \<Rightarrow> Keep c # scan fuel ci r (c # bh) cs
      | Some st' \<Rightarrow>
          if pos st' = 0 then Hit [] # Keep c # scan fuel ci r (c # bh) cs
          else Hit (take (pos st') (c # cs)) # scan fuel ci r (behind st') (ahead st'))"

text \<open>\<open>s.match(re)\<close> with the \<open>g\<close> flag: the matched texts (the source treats the
  \<open>null\<close> of no match as the empty list, by \<open>|| []\<close> or by a guard).\<close>

definition matchAll :: "bool \<Rightarrow> rx \<Rightarrow> string \<Rightarrow> string list" where
  "matchAll ci r s = concat (map (\<lambda>p. case p of Keep c \<Rightarrow> [] | Hit m \<Rightarrow> [m]) (scan s ci r [] s))"

text \<open>\<open>s.replace(re, t)\<close> with the \<open>g\<close> flag and a replacement without \<open>$\<close>.\<close>

definition replaceAll :: "bool \<Rightarrow> rx \<Rightarrow> string \<Rightarrow> string \<Rightarrow> string" where
  "replaceAll ci r t s =
     concat (map (\<lambda>p. case p of Keep c \<Rightarrow> [c] | Hit m \<Rightarrow> t) (scan s ci r [] s))"

section \<open>Helper functions of the source\<close>

text \<open>\<open>/\s+/g\<close>\<close>

definition re_spaces :: rx where
  "re_spaces = Plus (Cls isSpace)"

text \<open>\<open>cleanText(text, maxLen)\<close>; the source's default \<open>maxLen = 800\<close> is never used,
  every call passes the bound.\<close>

definition cleanText :: "string \<Rightarrow> nat \<Rightarrow> string" where
  "cleanText text maxLen =
     (let cleaned = trim (replaceAll False re_spaces '' '' text)
      in if length cleaned > maxLen then take maxLen cleaned @ ''...'' else cleaned)"

section \<open>Content analyzer\<close>

text \<open>\<open>/<(script|style|noscript)[^>]*>.*?<\/\1>/gis\<close>\<close>

definition re_hidden :: rx where
  "re_hidden =
     seqs [Lit CHR ''<'', Grp 1 (alts [Str ''script'', Str ''style'', Str ''noscript'']),
           Star (Cls (notChar CHR ''>'')), Lit CHR ''>'',
           StarLazy (Cls anyChar), Str ''</'', Bref 1, Lit CHR ''>'']"

text \<open>\<open>/<[^>]*>/g\<close>\<close>

definition re_tag :: rx where
  "re_tag = seqs [Lit CHR ''<'', Star (Cls (notChar CHR ''>'')), Lit CHR ''>'']"

text \<open>\<open>/\b\w{2,}\b/g\<close>\<close>

definition re_word :: rx where
  "re_word = seqs [Wordb, Rep True 2 None (Cls isWordChar), Wordb]"

text \<open>An analysis result \<open>{ snippet, score }\<close>.  The score is a JavaScript number; the
  model computes it in exact rational arithmetic (\<open>0.0001\<close> is \<open>1/10000\<close>), leaving the
  rounding of the double-precision division out.\<close>

record analysis =
  snippet :: string
  score :: rat

text \<open>The visible text of a page: hidden blocks removed, tags replaced by a space,
  white space collapsed and trimmed.\<close>

definition visibleText :: "string \<Rightarrow> string" where
  "visibleText html =
     (let cleanHtml = replaceAll True re_hidden [] html
      in trim (replaceAll False re_spaces '' '' (replaceAll False re_tag '' '' cleanHtml)))"

text \<open>\<open>query.toLowerCase().match(/\b\w{2,}\b/g) || []\<close>\<close>

definition queryWords :: "string \<Rightarrow> string list" where
  "queryWords query = matchAll False re_word (toLowerCase query)"

text \<open>The tokens of a query in words, without the pattern: a text has a token (a run
  of two or more word characters) exactly when two word characters stand next to each
  other in it.  The tokenizer above is compared with this below.\<close>

fun hasWordPair :: "string \<Rightarrow> bool" where
  "hasWordPair (a # b # cs) = ((isWordChar a \<and> isWordChar b) \<or> hasWordPair (b # cs))"
| "hasWordPair cs = False"

text \<open>\<open>matches / (queryWords.length + 0.0001)\<close>, where \<open>matches\<close> counts the query words
  that occur in the lower-cased text.\<close>

definition relevance :: "string \<Rightarrow> string list \<Rightarrow> rat" where
  "relevance fullText ws =
     (let matches = length (filter (\<lambda>word. includes_str (toLowerCase fullText) word) ws)
      in of_nat matches / (of_nat (length ws) + 1 / 10000))"

text \<open>\<open>analyzeHtmlForQuery(html, url, query)\<close>; \<open>None\<close> is the source's \<open>null\<close>.  The
  \<open>try\<close> of the source guards operations that do not throw on strings.\<close>

definition analyzeHtmlForQuery :: "string \<Rightarrow> string \<Rightarrow> string \<Rightarrow> analysis option" where
  "analyzeHtmlForQuery html url query =
     (let fullText = visibleText html;
          ws = queryWords query
      in if length ws = 0 then Some \<lparr>snippet = take 1500 fullText, score = 1\<rparr>
         else
           let sc = relevance fullText ws
           in if sc < 1 / 10 then None
              else Some \<lparr>snippet = fullText, score = sc\<rparr>)"

section \<open>Collaborators, state and trace\<close>

text \<open>
  What an awaited \<open>fetch\<close> gives.  \<open>Rejected msg\<close>: the promise rejects (network or DNS
  error, abort by the timeout), \<open>msg\<close> is the error's message.  \<open>Response status body\<close>:
  a response with that status; \<open>body\<close> is what reading and decoding it gives, \<open>Inl msg\<close>
  when that throws.
\<close>

datatype 'a reply = Rejected string | Response nat "string + 'a"

text \<open>\<open>response.ok\<close>\<close>

definition ok :: "nat \<Rightarrow> bool" where
  "ok status = (200 \<le> status \<and> status \<le> 299)"

text \<open>
  The run's observable actions, in order: a URL entering the visited set
  (\<open>this.visited.add\<close>) and the requests sent to the four collaborators.  The source
  keeps no such list; the model records it so that statements about which requests a run
  makes, and when, can be written down.
\<close>

datatype event =
    Visit string
  | SearchCall string
  | DirectFetch string
  | RenderFetch string
  | SynthCall string string

text \<open>
  The network: the reply to each request, which may depend on everything the run did
  before it.  A search reply decodes to \<open>searchData.items?.map(item => item.link)\<close>
  (\<open>None\<close>: no \<open>items\<close>), a synthesizer reply to
  \<open>result.choices[0]?.message?.content\<close> (\<open>None\<close>: \<open>undefined\<close>).
\<close>

record world =
  searchReply :: "event list \<Rightarrow> string \<Rightarrow> string list option reply"
  directReply :: "event list \<Rightarrow> string \<Rightarrow> string reply"
  renderReply :: "event list \<Rightarrow> string \<Rightarrow> string reply"
  synthReply :: "event list \<Rightarrow> string \<Rightarrow> string \<Rightarrow> string option reply"

text \<open>
  The built-ins of the platform that the source calls and this repository does not
  define, taken as parameters: \<open>new URL(u).hostname\<close>, \<open>new URL(href, base).toString()\<close>
  (\<open>Inl msg\<close> when the constructor throws), \<open>JSON.parse\<close> (\<open>None\<close> when it throws) and
  \<open>JSON.stringify\<close> of a parsed value.
\<close>

record 'j platform =
  urlHostname :: "string \<Rightarrow> string + string"
  urlResolve :: "string \<Rightarrow> string \<Rightarrow> string + string"
  jsonParse :: "string \<Rightarrow> 'j option"
  jsonStringify :: "'j \<Rightarrow> string"

text \<open>The \<open>debug\<close> object of a run, and the state a run threads through its calls: the
  scraper's \<open>visited\<close> set, \<open>debug\<close> and the events so far.\<close>

record debugTrace =
  steps :: "string list"
  search_results :: "string list"

record state =
  visited :: "string set"
  debug :: debugTrace
  events :: "event list"

text \<open>\<open>debug.steps.push(msg)\<close>\<close>

definition push :: "string \<Rightarrow> state \<Rightarrow> state" where
  "push msg s = s\<lparr>debug := (debug s)\<lparr>steps := steps (debug s) @ [msg]\<rparr>\<rparr>"

definition emit :: "event \<Rightarrow> state \<Rightarrow> state" where
  "emit e s = s\<lparr>events := events s @ [e]\<rparr>"

text \<open>\<open>this.visited.add(url)\<close>\<close>

definition visit :: "string \<Rightarrow> state \<Rightarrow> state" where
  "visit url s = emit (Visit url) (s\<lparr>visited := insert url (visited s)\<rparr>)"

text \<open>The state \<open>POST\<close> starts a run in: \<open>new DeepScraper()\<close> and
  \<open>{ steps: [], search_results: [] }\<close>.\<close>

definition newRun :: state where
  "newRun = \<lparr>visited = {}, debug = \<lparr>steps = [], search_results = []\<rparr>, events = []\<rparr>"

text \<open>A value used as a condition: \<open>null\<close>, \<open>undefined\<close> and the empty string are
  falsy.\<close>

definition truthy :: "string option \<Rightarrow> bool" where
  "truthy x = (case x of None \<Rightarrow> False | Some v \<Rightarrow> v \<noteq> [])"

definition MAX_SEARCH_RESULTS :: nat where "MAX_SEARCH_RESULTS = 8"
definition MAX_CRAWL_DEPTH :: nat where "MAX_CRAWL_DEPTH = 2"

section \<open>Search and fetch strategies\<close>

definition performSearch :: "world \<Rightarrow> string \<Rightarrow> state \<Rightarrow> string list \<times> state" where
  "performSearch W query s =
     (let s1 = push ''Searching Google for relevant URLs...'' s;
          r = searchReply W (events s1) query;
          s2 = emit (SearchCall query) s1
      in case r of
           Rejected msg \<Rightarrow> ([], push (''Search error: '' @ msg) s2)
         | Response status body \<Rightarrow>
             if \<not> ok status then ([], push (''Google search failed: '' @ showNat status) s2)
             else
               (case body of
                  Inl msg \<Rightarrow> ([], push (''Search error: '' @ msg) s2)
                | Inr items \<Rightarrow>
                    (let results = (case items of None \<Rightarrow> []
                                    | Some links \<Rightarrow> take MAX_SEARCH_RESULTS links)
                     in (results,
                         push (''Found '' @ showNat (length results) @ '' search results'') s2))))"

text \<open>A response that is not \<open>ok\<close> leaves the \<open>try\<close> block without a throw and without
  a trace entry.\<close>

definition fetchHtmlRequests :: "world \<Rightarrow> string \<Rightarrow> state \<Rightarrow> string option \<times> state" where
  "fetchHtmlRequests W url s =
     (let s1 = push (''Fetching '' @ url @ '' via fast HTTP request'') s;
          r = directReply W (events s1) url;
          s2 = emit (DirectFetch url) s1
      in case r of
           Rejected msg \<Rightarrow> (None, push (''Fast fetch failed for '' @ url @ '': '' @ msg) s2)
         | Response status body \<Rightarrow>
             if ok status then
               (case body of
                  Inl msg \<Rightarrow> (None, push (''Fast fetch failed for '' @ url @ '': '' @ msg) s2)
                | Inr html \<Rightarrow>
                    (Some html,
                     push (''Successfully fetched '' @ url @ '' ('' @ showNat (length html)
                           @ '' chars)'') s2))
             else (None, s2))"

definition fetchHtmlWithScraper :: "world \<Rightarrow> string \<Rightarrow> state \<Rightarrow> string option \<times> state" where
  "fetchHtmlWithScraper W url s =
     (let s1 = push (''Scraping '' @ url @ '' with web scraper (JS rendering)'') s;
          r = renderReply W (events s1) url;
          s2 = emit (RenderFetch url) s1
      in case r of
           Rejected msg \<Rightarrow> (None, push (''Scraper error for '' @ url @ '': '' @ msg) s2)
         | Response status body \<Rightarrow>
             if \<not> ok status then
               (None, push (''Web scraper failed for '' @ url @ '': '' @ showNat status) s2)
             else
               (case body of
                  Inl msg \<Rightarrow> (None, push (''Scraper error for '' @ url @ '': '' @ msg) s2)
                | Inr html \<Rightarrow>
                    (Some html,
                     push (''Successfully scraped '' @ url @ '' with JS rendering (''
                           @ showNat (length html) @ '' chars)'') s2)))"

definition generateAIAnswer :: "world \<Rightarrow> string \<Rightarrow> string \<Rightarrow> state \<Rightarrow> string option \<times> state" where
  "generateAIAnswer W query context s =
     (let s1 = push ''Generating AI analysis of extracted content...'' s;
          r = synthReply W (events s1) query context;
          s2 = emit (SynthCall query context) s1
      in case r of
           Rejected msg \<Rightarrow> (None, push (''AI analysis failed: '' @ msg) s2)
         | Response status body \<Rightarrow>
             if \<not> ok status then
               (None, push (''AI analysis failed: '' @ ''AI API error: '' @ showNat status) s2)
             else
               (case body of
                  Inl msg \<Rightarrow> (None, push (''AI analysis failed: '' @ msg) s2)
                | Inr answer \<Rightarrow>
                    if truthy answer then (answer, push ''AI analysis completed successfully'' s2)
                    else (None, push ''AI analysis returned empty result'' s2)))"

section \<open>Embedded-state inspection\<close>

text \<open>In the patterns below that carry the \<open>i\<close> flag the character classes hold no
  letters, so case folding leaves them as they are.\<close>

definition notGt :: rx where
  "notGt = Cls (notChar CHR ''>'')"

text \<open>\<open>/<script[^>]*type=['"](application\/ld\+json)['"][^>]*>(.*?)<\/script>/gs\<close>\<close>

definition re_jsonld :: rx where
  "re_jsonld =
     seqs [Str ''<script'', Star notGt, Str ''type='', Cls quoteChar,
           Grp 1 (Str ''application/ld+json''), Cls quoteChar, Star notGt, Lit CHR ''>'',
           Grp 2 (StarLazy (Cls anyChar)), Str ''</script>'']"

text \<open>\<open>/<script[^>]*>|<\/script>/\<close> (used with \<open>g\<close> and with \<open>gi\<close>)\<close>

definition re_script_tags :: rx where
  "re_script_tags = Alt (seqs [Str ''<script'', Star notGt, Lit CHR ''>'']) (Str ''</script>'')"

text \<open>\<open>extractJsonLd(html)\<close>: the blocks that parse, in document order.\<close>

definition extractJsonLd :: "'j platform \<Rightarrow> string \<Rightarrow> 'j list" where
  "extractJsonLd P html =
     List.map_filter
       (\<lambda>m. jsonParse P (trim (replaceAll False re_script_tags [] m)))
       (matchAll False re_jsonld html)"

text \<open>\<open>query.toLowerCase().split(' ').some(word => text.toLowerCase().includes(word))\<close>\<close>

definition queryMatches :: "string \<Rightarrow> string \<Rightarrow> bool" where
  "queryMatches query text =
     list_ex (\<lambda>word. includes_str (toLowerCase text) word)
             (splitOn CHR '' '' (toLowerCase query))"

text \<open>\<open>/data-(?:price|value|last|current)[^>]*?=["']([^"']*?)["']/gi\<close>\<close>

definition re_data_attr :: rx where
  "re_data_attr =
     seqs [Str ''data-'', alts [Str ''price'', Str ''value'', Str ''last'', Str ''current''],
           StarLazy notGt, Lit CHR ''='', Cls quoteChar,
           Grp 1 (StarLazy (Cls notQuote)), Cls quoteChar]"

text \<open>\<open>/=["']([^"']*?)["']/\<close>\<close>

definition re_attr_value :: rx where
  "re_attr_value =
     seqs [Lit CHR ''='', Cls quoteChar, Grp 1 (StarLazy (Cls notQuote)), Cls quoteChar]"

text \<open>\<open>/\$?\d/\<close>\<close>

definition re_money :: rx where
  "re_money = seqs [Opt (Lit CHR ''$''), Cls isDigit]"

text \<open>\<open>/<script[^>]*>(.*?)<\/script>/gis\<close>\<close>

definition re_script :: rx where
  "re_script =
     seqs [Str ''<script'', Star notGt, Lit CHR ''>'', Grp 1 (StarLazy (Cls anyChar)),
           Str ''</script>'']"

text \<open>The tail \<open>\s*=\s*({.*?});\<close> of the four window-variable patterns, and the
  patterns themselves, in the order of \<open>windowVarPatterns\<close>.  They carry no flag: \<open>.\<close>
  stops at a line terminator.\<close>

definition re_assigned_object :: rx where
  "re_assigned_object =
     seqs [Star (Cls isSpace), Lit CHR ''='', Star (Cls isSpace),
           Grp 1 (seqs [Lit CHR ''{'', StarLazy (Cls dotChar), Lit CHR ''}'']), Lit CHR '';'']"

definition windowVarPatterns :: "rx list" where
  "windowVarPatterns =
     [Seq (Str ''__INITIAL_STATE__'') re_assigned_object,
      Seq (Str ''__PRELOADED_STATE__'') re_assigned_object,
      Seq (Str ''__NEXT_DATA__'') re_assigned_object,
      seqs [Str ''window'', Lit CHR ''.'', Plus (Cls isWordChar), re_assigned_object]]"

text \<open>\<open>match[n]\<close>: the text of group \<open>n\<close>, \<open>None\<close> for \<open>undefined\<close>.\<close>

definition group :: "nat \<Rightarrow> hit \<Rightarrow> string option" where
  "group n h = map_of (groups h) n"

text \<open>
  A probe that reports a finding returns the trace entry it pushes and the result.  The
  three probes run inside one \<open>try\<close>; \<open>Inl msg\<close> is an exception thrown there.

  First probe, the loop over the JSON-LD blocks.
\<close>

fun probeJsonLd :: "'j platform \<Rightarrow> string \<Rightarrow> string \<Rightarrow> 'j list \<Rightarrow> (string \<times> analysis) option" where
  "probeJsonLd P url query [] = None"
| "probeJsonLd P url query (jsonData # others) =
     (let jsonText = jsonStringify P jsonData
      in if queryMatches query jsonText
         then Some (''Found relevant JSON-LD data in '' @ url,
                    \<lparr>snippet = cleanText jsonText 1200, score = 9 / 10\<rparr>)
         else probeJsonLd P url query others)"

text \<open>Second probe, the loop over the data attributes.  \<open>match.match(...)[1]\<close> throws
  a TypeError when the inner match is \<open>null\<close>; a \<open>value\<close> that is \<open>undefined\<close> or empty
  is falsy.\<close>

fun probeDataAttrs :: "string \<Rightarrow> string \<Rightarrow> string list
                       \<Rightarrow> string + (string \<times> analysis) option" where
  "probeDataAttrs url query [] = Inr None"
| "probeDataAttrs url query (m # others) =
     (case exec False re_attr_value m of
        None \<Rightarrow> Inl ''Cannot read properties of null''
      | Some h \<Rightarrow>
          (case group 1 h of
             None \<Rightarrow> probeDataAttrs url query others
           | Some v \<Rightarrow>
               if v \<noteq> [] \<and> (queryMatches query v \<or> test False re_money v)
               then Inr (Some (''Found relevant data attribute in '' @ url @ '': '' @ v,
                               \<lparr>snippet = cleanText v 400, score = 85 / 100\<rparr>))
               else probeDataAttrs url query others))"

text \<open>Third probe: for each inline script, the window-variable patterns in order.  A
  captured object that does not parse is passed over.\<close>

fun probePatterns :: "'j platform \<Rightarrow> string \<Rightarrow> string \<Rightarrow> string \<Rightarrow> rx list
                      \<Rightarrow> (string \<times> analysis) option" where
  "probePatterns P url query scriptContent [] = None"
| "probePatterns P url query scriptContent (pattern # others) =
     (case exec False pattern scriptContent of
        None \<Rightarrow> probePatterns P url query scriptContent others
      | Some h \<Rightarrow>
          (case group 1 h of
             None \<Rightarrow> probePatterns P url query scriptContent others
           | Some captured \<Rightarrow>
               if captured = [] then probePatterns P url query scriptContent others
               else
                 (case jsonParse P captured of
                    None \<Rightarrow> probePatterns P url query scriptContent others
                  | Some parsed \<Rightarrow>
                      (let dataText = jsonStringify P parsed
                       in if queryMatches query dataText
                          then Some (''Found relevant window variable data in '' @ url,
                                     \<lparr>snippet = cleanText dataText 1200, score = 95 / 100\<rparr>)
                          else probePatterns P url query scriptContent others))))"

fun probeScripts :: "'j platform \<Rightarrow> string \<Rightarrow> string \<Rightarrow> string list
                     \<Rightarrow> (string \<times> analysis) option" where
  "probeScripts P url query [] = None"
| "probeScripts P url query (script # others) =
     (let scriptContent = replaceAll True re_script_tags [] script
      in case probePatterns P url query scriptContent windowVarPatterns of
           Some finding \<Rightarrow> Some finding
         | None \<Rightarrow> probeScripts P url query others)"

definition runtimeProbes :: "'j platform \<Rightarrow> string \<Rightarrow> string \<Rightarrow> string
                             \<Rightarrow> string + (string \<times> analysis) option" where
  "runtimeProbes P url query html =
     (case probeJsonLd P url query (extractJsonLd P html) of
        Some finding \<Rightarrow> Inr (Some finding)
      | None \<Rightarrow>
          (case probeDataAttrs url query (matchAll True re_data_attr html) of
             Inl msg \<Rightarrow> Inl msg
           | Inr (Some finding) \<Rightarrow> Inr (Some finding)
           | Inr None \<Rightarrow> Inr (probeScripts P url query (matchAll True re_script html))))"

text \<open>\<open>extractFromJsRuntime(url, query, debug)\<close>: it takes no markup; it fetches the
  rendered page itself.\<close>

definition extractFromJsRuntime :: "'j platform \<Rightarrow> world \<Rightarrow> string \<Rightarrow> string \<Rightarrow> state
                                    \<Rightarrow> analysis option \<times> state" where
  "extractFromJsRuntime P W url query s =
     (let s0 = push (''Inspecting runtime data for '' @ url) s;
          (html, s1) = fetchHtmlWithScraper W url s0
      in case html of
           None \<Rightarrow> (None, s1)
         | Some h \<Rightarrow>
             if h = [] then (None, s1)
             else
               (case runtimeProbes P url query h of
                  Inl msg \<Rightarrow>
                    (None, push (''Runtime inspection error for '' @ url @ '': '' @ msg) s1)
                | Inr None \<Rightarrow> (None, s1)
                | Inr (Some (msg, result)) \<Rightarrow> (Some result, push msg s1)))"

section \<open>Internal link crawl\<close>

text \<open>\<open>/<a[^>]*href=["']([^"']*?)["'][^>]*>/gi\<close>\<close>

definition re_anchor :: rx where
  "re_anchor =
     seqs [Str ''<a'', Star notGt, Str ''href='', Cls quoteChar,
           Grp 1 (StarLazy (Cls notQuote)), Cls quoteChar, Star notGt, Lit CHR ''>'']"

text \<open>\<open>/href=["']([^"']*?)["']/i\<close>\<close>

definition re_href :: rx where
  "re_href = seqs [Str ''href='', Cls quoteChar, Grp 1 (StarLazy (Cls notQuote)), Cls quoteChar]"

text \<open>
  The body of the first loop of \<open>crawlInternalLinks\<close>: what one anchor tag contributes.
  \<open>Inr (Some fullUrl)\<close>: the link qualifies; \<open>Inr None\<close>: the tag is passed over
  (\<open>continue\<close>); \<open>Inl msg\<close>: an exception leaves the loop (and is caught by the \<open>try\<close>
  around the whole crawl).  \<open>new URL(href, baseUrl)\<close> stands outside the inner \<open>try\<close>,
  \<open>new URL(fullUrl).hostname\<close> inside it.
\<close>

definition candidateLink :: "'j platform \<Rightarrow> string \<Rightarrow> string \<Rightarrow> string set \<Rightarrow> string
                             \<Rightarrow> string + string option" where
  "candidateLink P baseUrl baseDomain vis linkMatch =
     (case exec True re_href linkMatch of
        None \<Rightarrow> Inr None
      | Some hrefMatch \<Rightarrow>
          (case group 1 hrefMatch of
             None \<Rightarrow> Inl ''Cannot read properties of undefined''
           | Some href \<Rightarrow>
               (case (if startsWith href ''/'' then map_sum id Some (urlResolve P href baseUrl)
                      else if startsWith href ''http'' then Inr (Some href)
                      else Inr None) of
                  Inl msg \<Rightarrow> Inl msg
                | Inr None \<Rightarrow> Inr None
                | Inr (Some fullUrl) \<Rightarrow>
                    (case urlHostname P fullUrl of
                       Inl msg \<Rightarrow> Inr None
                     | Inr linkDomain \<Rightarrow>
                         if linkDomain = baseDomain \<and> fullUrl \<notin> vis then Inr (Some fullUrl)
                         else Inr None))))"

text \<open>The loop itself, which collects \<open>internalLinks\<close> and stops at six.\<close>

fun collectLinks :: "'j platform \<Rightarrow> string \<Rightarrow> string \<Rightarrow> string set \<Rightarrow> string list
                     \<Rightarrow> string list \<Rightarrow> string + string list" where
  "collectLinks P baseUrl baseDomain vis [] internalLinks = Inr internalLinks"
| "collectLinks P baseUrl baseDomain vis (linkMatch # others) internalLinks =
     (case candidateLink P baseUrl baseDomain vis linkMatch of
        Inl msg \<Rightarrow> Inl msg
      | Inr None \<Rightarrow> collectLinks P baseUrl baseDomain vis others internalLinks
      | Inr (Some fullUrl) \<Rightarrow>
          (let internalLinks' = internalLinks @ [fullUrl]
           in if length internalLinks' \<ge> 6 then Inr internalLinks'
              else collectLinks P baseUrl baseDomain vis others internalLinks'))"

text \<open>Link discovery: the base URL's host name and the links collected from the
  markup.\<close>

definition discoverLinks :: "'j platform \<Rightarrow> string \<Rightarrow> string \<Rightarrow> string set
                             \<Rightarrow> string + string list" where
  "discoverLinks P baseUrl baseHtml vis =
     (case urlHostname P baseUrl of
        Inl msg \<Rightarrow> Inl msg
      | Inr baseDomain \<Rightarrow>
          collectLinks P baseUrl baseDomain vis (matchAll True re_anchor baseHtml) [])"

text \<open>A result with its source, \<open>{ ...analysis, source: internalUrl }\<close>.\<close>

record sourced = analysis +
  source :: string

definition withSource :: "analysis \<Rightarrow> string \<Rightarrow> sourced" where
  "withSource a url = \<lparr>snippet = snippet a, score = score a, source = url\<rparr>"

text \<open>\<open>if (html) { const analysis = analyzeHtmlForQuery(html, url, query); if (analysis)
  ...\<close>: the analysis of fetched markup, when there is markup and it is not empty.\<close>

definition analyzeFetched :: "string option \<Rightarrow> string \<Rightarrow> string \<Rightarrow> analysis option" where
  "analyzeFetched html url query =
     (case html of
        None \<Rightarrow> None
      | Some h \<Rightarrow> if h = [] then None else analyzeHtmlForQuery h url query)"

text \<open>The second loop of \<open>crawlInternalLinks\<close>, which tries each collected link.\<close>

fun crawlLoop :: "'j platform \<Rightarrow> world \<Rightarrow> string \<Rightarrow> string list \<Rightarrow> state
                  \<Rightarrow> sourced option \<times> state" where
  "crawlLoop P W query [] s = (None, s)"
| "crawlLoop P W query (internalUrl # others) s =
     (if internalUrl \<in> visited s then crawlLoop P W query others s
      else
        let s1 = visit internalUrl s;
            (html, s2) = fetchHtmlRequests W internalUrl s1
        in case analyzeFetched html internalUrl query of
             Some analysis \<Rightarrow>
               (Some (withSource analysis internalUrl),
                push (''Found relevant content in internal link: '' @ internalUrl) s2)
           | None \<Rightarrow>
               (let (scrapedHtml, s3) = fetchHtmlWithScraper W internalUrl s2
                in case analyzeFetched scrapedHtml internalUrl query of
                     Some analysis \<Rightarrow>
                       (Some (withSource analysis internalUrl),
                        push (''Found relevant content via scraper in internal link: ''
                              @ internalUrl) s3)
                   | None \<Rightarrow>
                       (let (runtimeResult, s4) = extractFromJsRuntime P W internalUrl query s3
                        in case runtimeResult of
                             Some r \<Rightarrow>
                               (Some (withSource r internalUrl),
                                push (''Found relevant runtime data in internal link: ''
                                      @ internalUrl) s4)
                           | None \<Rightarrow> crawlLoop P W query others s4)))"

definition crawlInternalLinks :: "'j platform \<Rightarrow> world \<Rightarrow> string \<Rightarrow> string \<Rightarrow> string \<Rightarrow> state
                                  \<Rightarrow> sourced option \<times> state" where
  "crawlInternalLinks P W baseUrl baseHtml query s =
     (if MAX_CRAWL_DEPTH = 0 then (None, s)
      else
        let s1 = push (''Crawling internal links on '' @ baseUrl) s
        in case discoverLinks P baseUrl baseHtml (visited s1) of
             Inl msg \<Rightarrow> (None, push (''Internal crawl error: '' @ msg) s1)
           | Inr internalLinks \<Rightarrow>
               crawlLoop P W query internalLinks
                 (push (''Found '' @ showNat (length internalLinks) @ '' internal links to check'')
                    s1))"

section \<open>Orchestration\<close>

text \<open>
  The object \<open>deepScrape\<close> returns.  \<open>outSnippet\<close>, \<open>outScore\<close>, \<open>outSource\<close> and
  \<open>outDebug\<close> are its properties \<open>snippet\<close>, \<open>score\<close>, \<open>source\<close> (\<open>None\<close>: \<open>null\<close>) and
  \<open>debug\<close>.  \<open>answer\<close> is \<open>None\<close> when the object has no property \<open>answer\<close>,
  \<open>Some None\<close> when the property is \<open>null\<close>, \<open>Some (Some a)\<close> when it is a string.
\<close>

record outcome =
  found :: bool
  outSnippet :: string
  outScore :: rat
  outSource :: "string option"
  answer :: "string option option"
  outDebug :: debugTrace

text \<open>The four successful returns of \<open>deepScrape\<close> have one shape: push the trace
  entry, ask the synthesizer, return the object with \<open>found: true\<close>.\<close>

definition succeed :: "world \<Rightarrow> string \<Rightarrow> string \<Rightarrow> string \<Rightarrow> rat \<Rightarrow> string \<Rightarrow> state
                       \<Rightarrow> outcome option \<times> state" where
  "succeed W query msg snip sc src s =
     (let (aiAnswer, s') = generateAIAnswer W query snip (push msg s)
      in (Some \<lparr>found = True, outSnippet = snip, outScore = sc, outSource = Some src,
                 answer = Some aiAnswer, outDebug = debug s'\<rparr>, s'))"

text \<open>The object of the two unsuccessful returns; it has no \<open>answer\<close>.\<close>

definition notFound :: "state \<Rightarrow> outcome" where
  "notFound s = \<lparr>found = False, outSnippet = [], outScore = 0, outSource = None,
                  answer = None, outDebug = debug s\<rparr>"

text \<open>The loop of \<open>deepScrape\<close> over the search results; \<open>Some\<close> is a \<open>return\<close> from
  inside the loop.\<close>

fun deepLoop :: "'j platform \<Rightarrow> world \<Rightarrow> string \<Rightarrow> string list \<Rightarrow> state
                 \<Rightarrow> outcome option \<times> state" where
  "deepLoop P W query [] s = (None, s)"
| "deepLoop P W query (url # others) s =
     (if url \<in> visited s then deepLoop P W query others s
      else
        let s1 = push (''Processing '' @ url @ '' with multi-layer extraction'') (visit url s);
            (fastHtml, s2) = fetchHtmlRequests W url s1
        in case analyzeFetched fastHtml url query of
             Some analysis \<Rightarrow>
               succeed W query (''Found relevant content via fast fetch: '' @ url)
                 (snippet analysis) (score analysis) url s2
           | None \<Rightarrow>
               (let (scrapedHtml, s3) = fetchHtmlWithScraper W url s2
                in case analyzeFetched scrapedHtml url query of
                     Some analysis \<Rightarrow>
                       succeed W query (''Found relevant content via web scraper: '' @ url)
                         (snippet analysis) (score analysis) url s3
                   | None \<Rightarrow>
                       (let (runtimeResult, s4) = extractFromJsRuntime P W url query s3
                        in case runtimeResult of
                             Some r \<Rightarrow>
                               succeed W query (''Found relevant runtime data: '' @ url)
                                 (snippet r) (score r) url s4
                           | None \<Rightarrow>
                               (let sourceHtml = (if truthy scrapedHtml then scrapedHtml
                                                  else fastHtml)
                                in case sourceHtml of
                                     None \<Rightarrow> deepLoop P W query others s4
                                   | Some h \<Rightarrow>
                                       if h \<noteq> [] \<and> MAX_CRAWL_DEPTH > 0 then
                                         (case crawlInternalLinks P W url h query s4 of
                                            (Some internalResult, s5) \<Rightarrow>
                                              succeed W query
                                                (''Found relevant content via internal crawling: ''
                                                 @ source internalResult)
                                                (snippet internalResult) (score internalResult)
                                                (source internalResult) s5
                                          | (None, s5) \<Rightarrow> deepLoop P W query others s5)
                                       else deepLoop P W query others s4))))"

definition deepScrape :: "'j platform \<Rightarrow> world \<Rightarrow> string \<Rightarrow> state \<Rightarrow> outcome \<times> state" where
  "deepScrape P W query s =
     (let s0 = push ''Starting deep scrape orchestration...'' s;
          (searchResults, s1) = performSearch W query s0;
          s2 = s1\<lparr>debug := (debug s1)\<lparr>search_results := searchResults\<rparr>\<rparr>
      in if length searchResults = 0 then
           (let s3 = push ''No search results found'' s2 in (notFound s3, s3))
         else
           (case deepLoop P W query searchResults s2 of
              (Some result, s3) \<Rightarrow> (result, s3)
            | (None, s3) \<Rightarrow>
                (let s4 = push ''No relevant content found in any source'' s3
                 in (notFound s4, s4))))"

section \<open>Traces of a run\<close>

text \<open>The URLs a run selected for trial, in order: those it added to the visited set.\<close>

fun visits :: "event list \<Rightarrow> string list" where
  "visits [] = []"
| "visits (Visit u # es) = u # visits es"
| "visits (e # es) = visits es"

text \<open>The URLs of a run's direct fetches, in order.\<close>

fun directs :: "event list \<Rightarrow> string list" where
  "directs [] = []"
| "directs (DirectFetch u # es) = u # directs es"
| "directs (e # es) = directs es"

text \<open>The URL a page request (direct or rendered) asks for.\<close>

fun fetchedUrl :: "event \<Rightarrow> string option" where
  "fetchedUrl (DirectFetch u) = Some u"
| "fetchedUrl (RenderFetch u) = Some u"
| "fetchedUrl e = None"

text \<open>
  The invariant of the two loops, for a run that started with the visited set \<open>V0\<close>:
  the visited set is \<open>V0\<close> and the URLs selected since; no URL was selected twice, none
  that was in \<open>V0\<close>; every selected URL was fetched directly once, in the order of
  selection; and every page request follows the selection of its URL.
\<close>

definition tracedOk :: "string set \<Rightarrow> state \<Rightarrow> bool" where
  "tracedOk V0 s \<longleftrightarrow>
     visited s = V0 \<union> set (visits (events s))
     \<and> distinct (visits (events s))
     \<and> set (visits (events s)) \<inter> V0 = {}
     \<and> directs (events s) = visits (events s)
     \<and> (\<forall>i<length (events s). \<forall>u. fetchedUrl (events s ! i) = Some u
            \<longrightarrow> Visit u \<in> set (take i (events s)))"

text \<open>What the loop of \<open>deepScrape\<close> returns from inside: an object with
  \<open>found: true\<close>, a source, an \<open>answer\<close> property and the run's \<open>debug\<close>.\<close>

definition wellFormedSuccess :: "outcome option \<Rightarrow> state \<Rightarrow> bool" where
  "wellFormedSuccess r s =
     (case r of
        None \<Rightarrow> True
      | Some out \<Rightarrow> found out \<and> answer out \<noteq> None \<and> outSource out \<noteq> None
                    \<and> outDebug out = debug s)"

section \<open>Concrete collaborators\<close>

text \<open>
  A platform and some networks to run the model on.  On the inputs used below the
  platform answers as the built-ins do: \<open>new URL\<close> accepts the \<open>http://ex.com/...\<close>
  URLs, with host name \<open>ex.com\<close>, and throws on \<open>http://[\<close> and on the
  protocol-relative \<open>//[\<close> (an IPv6 host that is never closed); \<open>/ok\<close> resolves against
  any page of \<open>ex.com\<close> to \<open>http://ex.com/ok\<close>; a JSON text is represented by itself, so
  \<open>JSON.stringify(JSON.parse(t))\<close> is \<open>t\<close> for the compact object texts used.
\<close>

definition demoPlatform :: "string platform" where
  "demoPlatform =
     \<lparr>urlHostname = (\<lambda>u. if startsWith u ''http://ex.com/'' then Inr ''ex.com''
                         else Inl ''Invalid URL''),
      urlResolve = (\<lambda>href base. if startsWith href ''//'' then Inl ''Invalid URL''
                                 else Inr (''http://ex.com'' @ href)),
      jsonParse = (\<lambda>t. if startsWith t ''{'' then Some t else None),
      jsonStringify = (\<lambda>j. j)\<rparr>"

definition pageA :: string where
  "pageA = ''<a href=\"http://ex.com/b\">beta</a>''"

text \<open>The search returns page \<open>a\<close> twice and page \<open>b\<close>; \<open>a\<close> links to \<open>b\<close>; \<open>b\<close>
  answers 404; the renderer is down.\<close>

definition crawlWorld :: world where
  "crawlWorld =
     \<lparr>searchReply = (\<lambda>h q. Response 200
                         (Inr (Some [''http://ex.com/a'', ''http://ex.com/a'', ''http://ex.com/b'']))),
      directReply = (\<lambda>h u. if u = ''http://ex.com/a'' then Response 200 (Inr pageA)
                            else if u = ''http://ex.com/b'' then Response 404 (Inr ''gone'')
                            else Rejected ''timeout''),
      renderReply = (\<lambda>h u. Response 500 (Inr [])),
      synthReply = (\<lambda>h q c. Response 200 (Inr (Some ''42'')))\<rparr>"

text \<open>The search finds nothing.\<close>

definition emptyWorld :: world where
  "emptyWorld = crawlWorld\<lparr>searchReply := (\<lambda>h q. Response 200 (Inr (Some [])))\<rparr>"

text \<open>Direct fetches time out; the renderer returns a page.\<close>

definition renderWorld :: world where
  "renderWorld =
     \<lparr>searchReply = (\<lambda>h q. Response 200 (Inr (Some [''http://ex.com/a'']))),
      directReply = (\<lambda>h u. Rejected ''timeout''),
      renderReply = (\<lambda>h u. Response 200 (Inr ''<p>hi</p>'')),
      synthReply = (\<lambda>h q c. Response 200 (Inr (Some ''42'')))\<rparr>"

text \<open>Every page comes back with status 200 and an empty body.\<close>

definition emptyBodyWorld :: world where
  "emptyBodyWorld =
     \<lparr>searchReply = (\<lambda>h q. Response 200 (Inr (Some [''http://ex.com/a'']))),
      directReply = (\<lambda>h u. Response 200 (Inr [])),
      renderReply = (\<lambda>h u. Response 200 (Inr [])),
      synthReply = (\<lambda>h q c. Response 200 (Inr (Some ''42'')))\<rparr>"

text \<open>A page with one JSON-LD block.\<close>

definition jsonLdPage :: string where
  "jsonLdPage = ''<script type=\"application/ld+json\">{\"x\":1}</script>''"

text \<open>Two pages with a malformed link before a good one: the first link is
  protocol-relative, the second absolute.\<close>

definition brokenLinkPage :: string where
  "brokenLinkPage = ''<a href=\"//[\"><a href=\"/ok\">''"

definition skippedLinkPage :: string where
  "skippedLinkPage = ''<a href=\"http://[\"><a href=\"/ok\">''"

section \<open>Evaluation\<close>

text \<open>The definitions the simplifier unfolds to run the model on a concrete input.\<close>

lemma replicate_numeral: "replicate (numeral k) x = x # replicate (pred_numeral k) x"
  by (simp add: numeral_eq_Suc)

lemmas string_defs =
  code_def isSpace_def isDigit_def isWordChar_def isLineTerminator_def lowerChar_def
  toLowerCase_def canonicalize_def char_of_def bit_Suc_0_iff trim_def showNat.simps
  digitChar_def

lemmas regex_defs =
  step1_def sameChar_def atWordBoundary_def consumed_def Str_def seqs_def Star_def
  StarLazy_def Plus_def Opt_def anyChar_def dotChar_def notChar_def quoteChar_def
  notQuote_def matchHere_def hitOf_def exec_def test_def hitAtEnd_def matchAll_def
  replaceAll_def group_def replicate_numeral

lemmas analyzer_defs =
  re_spaces_def cleanText_def re_hidden_def re_tag_def re_word_def visibleText_def
  queryWords_def relevance_def analyzeHtmlForQuery_def

lemmas fetch_defs =
  ok_def push_def emit_def visit_def newRun_def truthy_def MAX_SEARCH_RESULTS_def
  MAX_CRAWL_DEPTH_def performSearch_def fetchHtmlRequests_def fetchHtmlWithScraper_def
  generateAIAnswer_def

lemmas probe_defs =
  notGt_def re_jsonld_def re_script_tags_def extractJsonLd_def List.map_filter_def
  queryMatches_def re_data_attr_def re_attr_value_def re_money_def re_script_def
  re_assigned_object_def windowVarPatterns_def runtimeProbes_def extractFromJsRuntime_def

lemmas crawl_defs =
  re_anchor_def re_href_def candidateLink_def discoverLinks_def withSource_def analyzeFetched_def
  crawlInternalLinks_def succeed_def notFound_def deepScrape_def

lemmas demo_defs =
  demoPlatform_def pageA_def crawlWorld_def emptyWorld_def renderWorld_def emptyBodyWorld_def
  jsonLdPage_def brokenLinkPage_def skippedLinkPage_def

lemmas eval_defs =
  string_defs regex_defs analyzer_defs fetch_defs probe_defs crawl_defs demo_defs

section \<open>The relevance analyzer\<close>

lemma relevance_bounds: "0 \<le> relevance t ws \<and> relevance t ws \<le> 1"
proof -
  let ?m = "length (filter (\<lambda>word. includes_str (toLowerCase t) word) ws)"
  have le: "?m \<le> length ws"
    by (rule length_filter_le)
  have pos: "(0::rat) < of_nat (length ws) + 1 / 10000"
    by (simp add: add_nonneg_pos)
  have "(of_nat ?m :: rat) \<le> of_nat (length ws)"
    using le by (simp only: of_nat_le_iff)
  then have "(of_nat ?m :: rat) \<le> of_nat (length ws) + 1 / 10000"
    by linarith
  with pos show ?thesis
    by (simp add: relevance_def Let_def)
qed

text \<open>
  Claim C2.  For every markup and every query the score the analyzer computes lies
  between 0 and 1, so does the score of every result it returns, and whenever the
  computed score of a query with tokens is below 0.1 the analyzer returns no result; a
  returned score is therefore never below 0.1.
\<close>

theorem analyzer_score_in_unit_interval:
  "0 \<le> relevance (visibleText html) (queryWords query)
   \<and> relevance (visibleText html) (queryWords query) \<le> 1
   \<and> (\<forall>a. analyzeHtmlForQuery html url query = Some a
          \<longrightarrow> 0 \<le> score a \<and> score a \<le> 1 \<and> \<not> score a < 1 / 10)
   \<and> (queryWords query \<noteq> [] \<and> relevance (visibleText html) (queryWords query) < 1 / 10
          \<longrightarrow> analyzeHtmlForQuery html url query = None)"
proof -
  have b: "0 \<le> relevance (visibleText html) (queryWords query)
           \<and> relevance (visibleText html) (queryWords query) \<le> 1"
    by (rule relevance_bounds)
  have acc: "0 \<le> score a \<and> score a \<le> 1 \<and> \<not> score a < 1 / 10"
    if "analyzeHtmlForQuery html url query = Some a" for a
  proof (cases "queryWords query = []")
    case True
    with that have "a = \<lparr>snippet = take 1500 (visibleText html), score = 1\<rparr>"
      by (simp add: analyzeHtmlForQuery_def Let_def)
    then show ?thesis by simp
  next
    case False
    with that have "\<not> relevance (visibleText html) (queryWords query) < 1 / 10"
      and "score a = relevance (visibleText html) (queryWords query)"
      by (auto simp: analyzeHtmlForQuery_def Let_def split: if_splits)
    with b show ?thesis by simp
  qed
  have rej: "analyzeHtmlForQuery html url query = None"
    if "queryWords query \<noteq> []" "relevance (visibleText html) (queryWords query) < 1 / 10"
    using that by (simp add: analyzeHtmlForQuery_def Let_def)
  from b acc rej show ?thesis by blast
qed

theorem analyzer_score_in_unit_interval_witness:
  "queryWords ''zebra'' \<noteq> []
   \<and> relevance (visibleText ''<p>Hello</p>'') (queryWords ''zebra'') < 1 / 10
   \<and> analyzeHtmlForQuery ''<p>Hello</p>'' ''u'' ''zebra'' = None
   \<and> analyzeHtmlForQuery ''<p>Hello</p>'' ''u'' ''hello zebra''
       = Some \<lparr>snippet = ''Hello'', score = 10000 / 20001\<rparr>
   \<and> (0::rat) \<le> 10000 / 20001 \<and> (10000::rat) / 20001 \<le> 1"
proof -
  have w: "queryWords ''zebra'' = [''zebra'']"
    by (simp add: string_defs regex_defs analyzer_defs)
  have t: "visibleText ''<p>Hello</p>'' = ''Hello''"
    by (simp add: string_defs regex_defs analyzer_defs)
  have r: "relevance ''Hello'' [''zebra''] < 1 / 10"
    by (simp add: string_defs relevance_def)
  have a: "analyzeHtmlForQuery ''<p>Hello</p>'' ''u'' ''hello zebra''
           = Some \<lparr>snippet = ''Hello'', score = 10000 / 20001\<rparr>"
    by (simp add: string_defs regex_defs analyzer_defs)
  from analyzer_score_in_unit_interval [of "''<p>Hello</p>''" "''zebra''" "''u''"] w t r
  have n: "analyzeHtmlForQuery ''<p>Hello</p>'' ''u'' ''zebra'' = None"
    by simp
  from analyzer_score_in_unit_interval [of "''<p>Hello</p>''" "''hello zebra''" "''u''"] a
  have "(0::rat) \<le> 10000 / 20001 \<and> (10000::rat) / 20001 \<le> 1"
    by simp
  with w t r a n show ?thesis by simp
qed

subsection \<open>The tokenizer\<close>

text \<open>The pattern \<open>/\b\w{2,}\b/g\<close> finds nothing in a text without two adjacent word
  characters, and finds something in every other text.\<close>

lemma re_word_no_match:
  assumes "\<not> (\<exists>a b cs. s = a # b # cs \<and> isWordChar a \<and> isWordChar b)"
  shows "matchHere False re_word bh s = None"
proof (cases s)
  case Nil
  then show ?thesis
    by (simp add: matchHere_def re_word_def seqs_def replicate_numeral)
next
  case (Cons a s')
  show ?thesis
  proof (cases s')
    case Nil
    with Cons show ?thesis
      by (simp add: matchHere_def re_word_def seqs_def replicate_numeral step1_def Let_def)
  next
    case (Cons b cs)
    with \<open>s = a # s'\<close> assms have "\<not> (isWordChar a \<and> isWordChar b)"
      by simp
    with Cons \<open>s = a # s'\<close> show ?thesis
      by (auto simp: matchHere_def re_word_def seqs_def replicate_numeral step1_def Let_def)
  qed
qed

lemma scan_no_pair:
  "\<not> hasWordPair s \<Longrightarrow> length s \<le> length fuel \<Longrightarrow> scan fuel False re_word bh s = map Keep s"
proof (induction fuel arbitrary: bh s)
  case Nil
  have "matchHere False re_word bh [] = None"
    by (rule re_word_no_match) simp
  with Nil.prems show ?case
    by (simp add: hitAtEnd_def)
next
  case (Cons f fuel)
  show ?case
  proof (cases s)
    case Nil
    have "matchHere False re_word bh [] = None"
      by (rule re_word_no_match) simp
    with Nil show ?thesis
      by (simp add: hitAtEnd_def)
  next
    case (Cons c cs)
    have n: "matchHere False re_word bh (c # cs) = None"
      using Cons.prems(1) Cons by (intro re_word_no_match) auto
    have "\<not> hasWordPair cs"
      using Cons.prems(1) Cons by (cases cs) auto
    moreover have "length cs \<le> length fuel"
      using Cons.prems(2) Cons by simp
    ultimately have "scan fuel False re_word (c # bh) cs = map Keep cs"
      by (rule Cons.IH)
    with n Cons show ?thesis
      by simp
  qed
qed

lemma matchAll_no_pair: "\<not> hasWordPair s \<Longrightarrow> matchAll False re_word s = []"
  by (simp add: matchAll_def scan_no_pair)

lemma stepOver_fields:
  "ahead st = run @ rest \<Longrightarrow>
     ahead (stepOver run st) = rest \<and> behind (stepOver run st) = rev run @ behind st
     \<and> pos (stepOver run st) = pos st + length run \<and> caps (stepOver run st) = caps st"
  by (induction run arbitrary: st) (simp_all add: step1_def)

lemma rep_greedy_class:
  assumes m: "\<And>s c. m s c = (case ahead s of [] \<Rightarrow> None
                               | a # _ \<Rightarrow> if w a then c (step1 s) else None)"
    and "list_all w run" and "rest = [] \<or> \<not> w (hd rest)"
    and "ahead st = run @ rest" and "mn \<le> length run" and "length run \<le> length fuel"
    and "k (stepOver run st) = Some z"
  shows "rep fuel m True mn None st k = Some z"
  using assms(2-)
proof (induction run arbitrary: st fuel mn)
  case Nil
  have ms: "m st c = None" for c
    using Nil.prems(2,3) by (cases rest) (simp_all add: m)
  from Nil.prems show ?case
    by (cases fuel) (simp_all add: Let_def ms)
next
  case (Cons a run)
  from Cons.prems(5) obtain f fuel' where fuel: "fuel = f # fuel'" and len: "length run \<le> length fuel'"
    by (cases fuel) auto
  have ms: "m st c = c (step1 st)" for c
    using Cons.prems(1,3) by (simp add: m)
  have a: "ahead (step1 st) = run @ rest"
    using Cons.prems(3) by (simp add: step1_def)
  have p: "pos (step1 st) \<noteq> pos st"
    using Cons.prems(3) by (simp add: step1_def)
  have k: "k (stepOver run (step1 st)) = Some z"
    using Cons.prems(6) by simp
  have mn: "mn - 1 \<le> length run"
    using Cons.prems(4) by simp
  have "rep fuel' m True (mn - 1) None (step1 st) k = Some z"
    using Cons.prems(1,2) a mn len k by (intro Cons.IH) simp_all
  with p show ?case
    by (cases "mn = 0") (simp_all add: fuel Let_def ms)
qed

lemma re_word_match:
  assumes "isWordChar a" and "isWordChar b" and "bh = [] \<or> \<not> isWordChar (hd bh)"
  shows "matchHere False re_word bh (a # b # cs) \<noteq> None"
proof -
  define run where "run = a # b # takeWhile isWordChar cs"
  define rest where "rest = dropWhile isWordChar cs"
  define st0 where "st0 = \<lparr>behind = bh, ahead = a # b # cs, pos = 0, caps = []\<rparr>"
  define k1 where "k1 = (\<lambda>st'. if atWordBoundary st' then Some st' else None)"
  have b0: "atWordBoundary st0"
    using assms by (cases bh) (simp_all add: atWordBoundary_def st0_def)
  have unfold: "matchHere False re_word bh (a # b # cs)
        = rep (replicate 2 CHR ''.'' @ a # b # cs) (rmatch False (Cls isWordChar))
              True 2 None st0 k1"
    using b0
    by (simp add: matchHere_def re_word_def seqs_def st0_def k1_def del: rep.simps)
  have r0: "rmatch False (Cls isWordChar) s c
              = (case ahead s of [] \<Rightarrow> None
                 | a # _ \<Rightarrow> if isWordChar a then c (step1 s) else None)" for s c
    by simp
  have r1: "list_all isWordChar run"
    using assms(1,2) by (simp add: run_def list_all_iff) (metis set_takeWhileD)
  have r2: "rest = [] \<or> \<not> isWordChar (hd rest)"
    by (simp add: rest_def) (metis dropWhile_eq_Nil_conv hd_dropWhile)
  have r3: "ahead st0 = run @ rest"
    by (simp add: st0_def run_def rest_def)
  have r4: "2 \<le> length run"
    by (simp add: run_def)
  have r5: "length run \<le> length (replicate 2 CHR ''.'' @ a # b # cs)"
    by (simp add: run_def) (metis le_SucI length_takeWhile_le)
  have f: "ahead (stepOver run st0) = rest \<and> behind (stepOver run st0) = rev run @ behind st0"
    using stepOver_fields [OF r3] by simp
  have ne: "run \<noteq> []"
    by (simp add: run_def)
  then have "hd (rev run @ bh) = last run"
    by (simp add: hd_rev)
  moreover have "isWordChar (last run)"
    using r1 ne by (simp add: list_all_iff)
  ultimately have w: "isWordChar (hd (rev run @ bh))"
    by simp
  have "atWordBoundary (stepOver run st0)"
    using f r2 w ne by (cases rest; cases "rev run @ bh") (simp_all add: atWordBoundary_def st0_def)
  then have r6: "k1 (stepOver run st0) = Some (stepOver run st0)"
    by (simp add: k1_def)
  have "rep (replicate 2 CHR ''.'' @ a # b # cs) (rmatch False (Cls isWordChar))
              True 2 None st0 k1 = Some (stepOver run st0)"
    using r1 r2 r3 r4 r5 r6 by (intro rep_greedy_class [where w = isWordChar and run = run and rest = rest]) (rule r0)
  with unfold show ?thesis
    by simp
qed

lemma scan_hit:
  assumes "matchHere ci r (rev pre @ bh) suf \<noteq> None" and "length (pre @ suf) \<le> length fuel"
  shows "\<exists>m. Hit m \<in> set (scan fuel ci r bh (pre @ suf))"
  using assms
proof (induction pre arbitrary: bh fuel)
  case Nil
  show ?case
  proof (cases fuel)
    case Nil
    with Nil.prems show ?thesis
      by (simp add: hitAtEnd_def)
  next
    case (Cons f fuel')
    with Nil.prems show ?thesis
      by (cases suf) (auto simp: hitAtEnd_def)
  qed
next
  case (Cons c pre)
  from Cons.prems(2) obtain f fuel' where fuel: "fuel = f # fuel'"
    and len: "length (pre @ suf) \<le> length fuel'"
    by (cases fuel) auto
  show ?case
  proof (cases "matchHere ci r bh (c # pre @ suf)")
    case None
    have "\<exists>m. Hit m \<in> set (scan fuel' ci r (c # bh) (pre @ suf))"
      using Cons.prems(1) len by (intro Cons.IH) simp_all
    with None show ?thesis
      by (auto simp: fuel)
  next
    case (Some st')
    then show ?thesis
      by (auto simp: fuel)
  qed
qed

lemma hasWordPair_first:
  "hasWordPair s \<Longrightarrow> bh = [] \<or> \<not> isWordChar (hd bh) \<Longrightarrow>
     \<exists>pre a b cs. s = pre @ a # b # cs \<and> isWordChar a \<and> isWordChar b
        \<and> (rev pre @ bh = [] \<or> \<not> isWordChar (hd (rev pre @ bh)))"
proof (induction s arbitrary: bh rule: length_induct)
  case (1 s)
  from "1.prems"(1) obtain a b cs where s: "s = a # b # cs"
    by (cases s rule: hasWordPair.cases) auto
  show ?case
  proof (cases "isWordChar a \<and> isWordChar b")
    case True
    with "1.prems"(2) s have "s = [] @ a # b # cs \<and> isWordChar a \<and> isWordChar b
        \<and> (rev [] @ bh = [] \<or> \<not> isWordChar (hd (rev [] @ bh)))"
      by simp
    then show ?thesis by blast
  next
    case False
    with "1.prems"(1) s have h: "hasWordPair (b # cs)"
      by simp
    show ?thesis
    proof (cases "isWordChar b")
      case True
      with False have na: "\<not> isWordChar a" by simp
      have "length (b # cs) < length s"
        by (simp add: s)
      with "1.IH" h na
      obtain pre x y zs where "b # cs = pre @ x # y # zs" "isWordChar x" "isWordChar y"
        "rev pre @ a # bh = [] \<or> \<not> isWordChar (hd (rev pre @ a # bh))"
        by (metis list.sel(1))
      then have "s = (a # pre) @ x # y # zs \<and> isWordChar x \<and> isWordChar y
        \<and> (rev (a # pre) @ bh = [] \<or> \<not> isWordChar (hd (rev (a # pre) @ bh)))"
        by (simp add: s)
      then show ?thesis by blast
    next
      case nb: False
      with h have h2: "hasWordPair cs"
        by (cases cs) auto
      have "length cs < length s"
        by (simp add: s)
      with "1.IH" h2 nb
      obtain pre x y zs where "cs = pre @ x # y # zs" "isWordChar x" "isWordChar y"
        "rev pre @ b # a # bh = [] \<or> \<not> isWordChar (hd (rev pre @ b # a # bh))"
        by (metis list.sel(1))
      then have "s = (a # b # pre) @ x # y # zs \<and> isWordChar x \<and> isWordChar y
        \<and> (rev (a # b # pre) @ bh = [] \<or> \<not> isWordChar (hd (rev (a # b # pre) @ bh)))"
        by (simp add: s)
      then show ?thesis by blast
    qed
  qed
qed

lemma matchAll_pair: "hasWordPair s \<Longrightarrow> matchAll False re_word s \<noteq> []"
proof -
  assume "hasWordPair s"
  from hasWordPair_first [OF this, of "[]"]
  obtain pre a b cs where s: "s = pre @ a # b # cs" and w: "isWordChar a" "isWordChar b"
    and bd: "rev pre @ [] = [] \<or> \<not> isWordChar (hd (rev pre @ []))"
    by auto
  have "matchHere False re_word (rev pre @ []) (a # b # cs) \<noteq> None"
    by (rule re_word_match [OF w bd])
  then have "\<exists>m. Hit m \<in> set (scan (pre @ a # b # cs) False re_word [] (pre @ a # b # cs))"
    by (rule scan_hit) simp
  then obtain m where "Hit m \<in> set (scan s False re_word [] s)"
    using s by auto
  then have "m \<in> set (matchAll False re_word s)"
    by (force simp: matchAll_def)
  then show ?thesis
    by auto
qed

lemma queryWords_empty_iff: "queryWords q = [] \<longleftrightarrow> \<not> hasWordPair (toLowerCase q)"
  using matchAll_pair [of "toLowerCase q"] matchAll_no_pair [of "toLowerCase q"]
  by (auto simp: queryWords_def)

text \<open>Whatever the pattern finds is a run of two or more word characters.\<close>

lemma rep_class_sound:
  assumes m: "\<And>s c. m s c = (case ahead s of [] \<Rightarrow> None
                               | a # _ \<Rightarrow> if w a then c (step1 s) else None)"
  shows "rep fuel m greedy mn None st k = Some z \<Longrightarrow> mn \<le> length fuel \<Longrightarrow>
         \<exists>run rest. ahead st = run @ rest \<and> list_all w run \<and> mn \<le> length run
                     \<and> k (stepOver run st) = Some z"
proof (induction fuel arbitrary: mn st)
  case Nil
  then show ?case
    by (intro exI [of _ "[]"] exI [of _ "ahead st"]) simp
next
  case (Cons f fuel)
  define again where
    "again = (\<lambda>y. if mn = 0 \<and> pos y = pos st then None else rep fuel m greedy (mn - 1) None y k)"
  have step: "\<exists>run rest. ahead st = run @ rest \<and> list_all w run \<and> mn \<le> length run
                     \<and> k (stepOver run st) = Some z"
    if "m st again = Some z"
  proof -
    from that m [of st again] obtain a t where a: "ahead st = a # t" and wa: "w a"
      and ag: "again (step1 st) = Some z"
      by (auto split: list.splits if_splits)
    from ag have r: "rep fuel m greedy (mn - 1) None (step1 st) k = Some z"
      by (simp add: again_def split: if_splits)
    have "mn - 1 \<le> length fuel"
      using Cons.prems(2) by simp
    from Cons.IH [OF r this] obtain run rest where
      "ahead (step1 st) = run @ rest" "list_all w run" "mn - 1 \<le> length run"
      "k (stepOver run (step1 st)) = Some z"
      by blast
    with a wa show ?thesis
      by (intro exI [of _ "a # run"] exI [of _ rest]) (auto simp: step1_def)
  qed
  have stop: "\<exists>run rest. ahead st = run @ rest \<and> list_all w run \<and> mn \<le> length run
                     \<and> k (stepOver run st) = Some z"
    if "mn = 0" "k st = Some z"
    using that by (intro exI [of _ "[]"] exI [of _ "ahead st"]) simp
  have "rep (f # fuel) m greedy mn None st k
          = (if mn \<noteq> 0 then m st again
             else if greedy then (case m st again of Some z \<Rightarrow> Some z | None \<Rightarrow> k st)
             else (case k st of Some z \<Rightarrow> Some z | None \<Rightarrow> m st again))"
    by (simp add: again_def Let_def cong: if_cong option.case_cong)
  with Cons.prems(1) have "m st again = Some z \<or> (mn = 0 \<and> k st = Some z)"
    by (simp del: rep.simps split: if_splits option.splits)
  with step stop show ?case
    by blast
qed

lemma re_word_sound:
  assumes "matchHere False re_word bh s = Some st'"
  shows "2 \<le> pos st' \<and> list_all isWordChar (take (pos st') s) \<and> pos st' \<le> length s
         \<and> ahead st' = drop (pos st') s \<and> behind st' = rev (take (pos st') s) @ bh"
proof -
  define st0 where "st0 = \<lparr>behind = bh, ahead = s, pos = 0, caps = []\<rparr>"
  define k1 where "k1 = (\<lambda>st'. if atWordBoundary st' then Some st' else None)"
  from assms have rp: "rep (replicate 2 CHR ''.'' @ s) (rmatch False (Cls isWordChar)) True 2 None st0 k1
                     = Some st'"
    by (simp add: matchHere_def re_word_def seqs_def st0_def k1_def split: if_splits del: rep.simps)
  have ms: "rmatch False (Cls isWordChar) s c
       = (case ahead s of [] \<Rightarrow> None | a # _ \<Rightarrow> if isWordChar a then c (step1 s) else None)" for s c
    by simp
  have "2 \<le> length (replicate 2 CHR ''.'' @ s)"
    by simp
  from rep_class_sound [of "rmatch False (Cls isWordChar)" isWordChar, OF ms rp this]
  obtain run rest where r: "ahead st0 = run @ rest" "list_all isWordChar run"
      "2 \<le> length run" "k1 (stepOver run st0) = Some st'"
    by blast
  from r(4) have "st' = stepOver run st0"
    by (simp add: k1_def split: if_splits)
  with stepOver_fields [OF r(1)] r show ?thesis
    by (simp add: st0_def)
qed


lemma scan_word_hits:
  "Hit m \<in> set (scan fuel False re_word bh s) \<Longrightarrow> 2 \<le> length m \<and> list_all isWordChar m"
proof (induction fuel arbitrary: bh s)
  case Nil
  have "matchHere False re_word bh [] = None"
    by (rule re_word_no_match) simp
  with Nil show ?case
    by (simp add: hitAtEnd_def)
next
  case (Cons f fuel)
  show ?case
  proof (cases s)
    case Nil
    have "matchHere False re_word bh [] = None"
      by (rule re_word_no_match) simp
    with Nil Cons.prems show ?thesis
      by (simp add: hitAtEnd_def)
  next
    case (Cons c cs)
    show ?thesis
    proof (cases "matchHere False re_word bh (c # cs)")
      case None
      with Cons Cons.prems have "Hit m \<in> set (scan fuel False re_word (c # bh) cs)"
        by simp
      then show ?thesis
        by (rule Cons.IH)
    next
      case (Some st')
      from re_word_sound [OF Some]
      have p: "2 \<le> pos st'" "list_all isWordChar (take (pos st') (c # cs))"
        "pos st' \<le> length (c # cs)"
        by simp_all
      with Some Cons Cons.prems
      have "m = take (pos st') (c # cs)
            \<or> Hit m \<in> set (scan fuel False re_word (behind st') (ahead st'))"
        by auto
      then show ?thesis
      proof
        assume "m = take (pos st') (c # cs)"
        with p show ?thesis
          by simp
      next
        assume "Hit m \<in> set (scan fuel False re_word (behind st') (ahead st'))"
        then show ?thesis
          by (rule Cons.IH)
      qed
    qed
  qed
qed

lemma queryWords_tokens:
  "t \<in> set (queryWords q) \<Longrightarrow> 2 \<le> length t \<and> list_all isWordChar t"
proof -
  assume "t \<in> set (queryWords q)"
  then have "Hit t \<in> set (scan (toLowerCase q) False re_word [] (toLowerCase q))"
    by (auto simp: queryWords_def matchAll_def split: piece.splits)
  then show ?thesis
    by (rule scan_word_hits)
qed


text \<open>
  Claim C6.  A query has no token exactly when its lower-case form has no two adjacent
  word characters.  For such a query and any markup, the analyzer returns the score 1.0
  and, as snippet, the first 1500 characters of the visible text.
\<close>

theorem analyzer_tokenless_query:
  "(queryWords query = [] \<longleftrightarrow> \<not> hasWordPair (toLowerCase query))
   \<and> (queryWords query = [] \<longrightarrow>
        analyzeHtmlForQuery html url query
          = Some \<lparr>snippet = take 1500 (visibleText html), score = 1\<rparr>
        \<and> length (take 1500 (visibleText html)) \<le> 1500)"
  by (simp add: analyzeHtmlForQuery_def queryWords_empty_iff)

theorem analyzer_tokenless_query_witness:
  "\<not> hasWordPair (toLowerCase ''a b ?'')
   \<and> queryWords ''a b ?'' = []
   \<and> analyzeHtmlForQuery ''<p>Hi  you</p>'' ''u'' ''a b ?''
       = Some \<lparr>snippet = ''Hi you'', score = 1\<rparr>"
proof -
  have w: "\<not> hasWordPair (toLowerCase ''a b ?'')"
    by (simp add: string_defs)
  have t: "visibleText ''<p>Hi  you</p>'' = ''Hi you''"
    by (simp add: string_defs regex_defs analyzer_defs)
  from analyzer_tokenless_query [of "''a b ?''" "''<p>Hi  you</p>''" "''u''"] w t
  show ?thesis by simp
qed

section \<open>Effects of the operations on the trace and the visited set\<close>

lemma visits_append [simp]: "visits (xs @ ys) = visits xs @ visits ys"
  by (induction xs rule: visits.induct) simp_all

lemma directs_append [simp]: "directs (xs @ ys) = directs xs @ directs ys"
  by (induction xs rule: directs.induct) simp_all

lemma visits_mem: "u \<in> set (visits es) \<longleftrightarrow> Visit u \<in> set es"
  by (induction es rule: visits.induct) auto

lemma push_fields [simp]:
  "events (push m s) = events s" "visited (push m s) = visited s"
  "steps (debug (push m s)) = steps (debug s) @ [m]"
  "search_results (debug (push m s)) = search_results (debug s)"
  by (simp_all add: push_def)

lemma emit_fields [simp]:
  "events (emit e s) = events s @ [e]" "visited (emit e s) = visited s"
  "debug (emit e s) = debug s"
  by (simp_all add: emit_def)

lemma visit_fields [simp]:
  "events (visit u s) = events s @ [Visit u]" "visited (visit u s) = insert u (visited s)"
  "debug (visit u s) = debug s"
  by (simp_all add: visit_def)

lemma performSearch_events [simp]:
  "events (snd (performSearch W q s)) = events s @ [SearchCall q]"
  by (simp add: performSearch_def Let_def split: reply.split sum.split)

lemma performSearch_visited [simp]:
  "visited (snd (performSearch W q s)) = visited s"
  by (simp add: performSearch_def Let_def split: reply.split sum.split)

lemma fetchHtmlRequests_events [simp]:
  "events (snd (fetchHtmlRequests W url s)) = events s @ [DirectFetch url]"
  by (simp add: fetchHtmlRequests_def Let_def split: reply.split sum.split)

lemma fetchHtmlRequests_visited [simp]:
  "visited (snd (fetchHtmlRequests W url s)) = visited s"
  by (simp add: fetchHtmlRequests_def Let_def split: reply.split sum.split)

lemma fetchHtmlWithScraper_events [simp]:
  "events (snd (fetchHtmlWithScraper W url s)) = events s @ [RenderFetch url]"
  by (simp add: fetchHtmlWithScraper_def Let_def split: reply.split sum.split)

lemma fetchHtmlWithScraper_visited [simp]:
  "visited (snd (fetchHtmlWithScraper W url s)) = visited s"
  by (simp add: fetchHtmlWithScraper_def Let_def split: reply.split sum.split)

lemma generateAIAnswer_events [simp]:
  "events (snd (generateAIAnswer W q c s)) = events s @ [SynthCall q c]"
  by (simp add: generateAIAnswer_def Let_def split: reply.split sum.split)

lemma generateAIAnswer_visited [simp]:
  "visited (snd (generateAIAnswer W q c s)) = visited s"
  by (simp add: generateAIAnswer_def Let_def split: reply.split sum.split)

lemma extractFromJsRuntime_events [simp]:
  "events (snd (extractFromJsRuntime P W url q s)) = events s @ [RenderFetch url]"
  by (simp add: extractFromJsRuntime_def Let_def case_prod_beta split: option.split sum.split)

lemma extractFromJsRuntime_visited [simp]:
  "visited (snd (extractFromJsRuntime P W url q s)) = visited s"
  by (simp add: extractFromJsRuntime_def Let_def case_prod_beta split: option.split sum.split)

lemma succeed_events [simp]:
  "events (snd (succeed W q m sn sc src s)) = events s @ [SynthCall q sn]"
  by (simp add: succeed_def case_prod_beta)

lemma succeed_visited [simp]:
  "visited (snd (succeed W q m sn sc src s)) = visited s"
  by (simp add: succeed_def case_prod_beta)

text \<open>The two loops only add to the events.\<close>

lemma crawlLoop_prefix [simp]:
  "prefix xs (events s) \<Longrightarrow> prefix xs (events (snd (crawlLoop P W q links s)))"
proof (induction links arbitrary: s)
  case Nil
  then show ?case by simp
next
  case (Cons u links)
  have ih: "prefix xs (events (snd (crawlLoop P W q links s')))"
    if "prefix (events s) (events s')" for s'
    by (rule Cons.IH) (rule prefix_order.trans [OF Cons.prems that])
  from Cons.prems show ?case
    by (simp add: Let_def case_prod_beta ih split: option.split)
qed

lemma crawlInternalLinks_prefix [simp]:
  "prefix xs (events s) \<Longrightarrow> prefix xs (events (snd (crawlInternalLinks P W base html q s)))"
  by (simp add: crawlInternalLinks_def Let_def split: sum.split)

lemma deepLoop_prefix [simp]:
  "prefix xs (events s) \<Longrightarrow> prefix xs (events (snd (deepLoop P W q urls s)))"
proof (induction urls arbitrary: s)
  case Nil
  then show ?case by simp
next
  case (Cons u urls)
  have ih: "prefix xs (events (snd (deepLoop P W q urls s')))"
    if "prefix (events s) (events s')" for s'
    by (rule Cons.IH) (rule prefix_order.trans [OF Cons.prems that])
  from Cons.prems show ?case
    by (simp add: Let_def case_prod_beta ih split: option.split)
qed


lemma tracedOk_cong:
  "events s' = events s \<Longrightarrow> visited s' = visited s \<Longrightarrow> tracedOk V0 s' = tracedOk V0 s"
  by (simp add: tracedOk_def)

lemma tracedOk_push [simp]: "tracedOk V0 (push m s) = tracedOk V0 s"
  by (rule tracedOk_cong) simp_all

lemma tracedOk_debug_update [simp]: "tracedOk V0 (s\<lparr>debug := d\<rparr>) = tracedOk V0 s"
  by (rule tracedOk_cong) simp_all

lemma ordered_snoc:
  assumes "\<forall>i<length evs. \<forall>u. fetchedUrl (evs ! i) = Some u \<longrightarrow> Visit u \<in> set (take i evs)"
    and "\<forall>u. fetchedUrl e = Some u \<longrightarrow> Visit u \<in> set evs"
  shows "\<forall>i<length (evs @ [e]). \<forall>u. fetchedUrl ((evs @ [e]) ! i) = Some u
            \<longrightarrow> Visit u \<in> set (take i (evs @ [e]))"
proof (intro allI impI)
  fix i u
  assume i: "i < length (evs @ [e])" and f: "fetchedUrl ((evs @ [e]) ! i) = Some u"
  show "Visit u \<in> set (take i (evs @ [e]))"
  proof (cases "i < length evs")
    case True
    with f assms(1) show ?thesis by (simp add: nth_append)
  next
    case False
    with i have "i = length evs" by simp
    with f assms(2) show ?thesis by simp
  qed
qed

lemma tracedOk_ordered:
  "tracedOk V0 s \<Longrightarrow>
     \<forall>i<length (events s). \<forall>u. fetchedUrl (events s ! i) = Some u
        \<longrightarrow> Visit u \<in> set (take i (events s))"
  by (simp add: tracedOk_def)

lemma tracedOk_trial_start:
  assumes "tracedOk V0 s" and "u \<notin> visited s"
    and "events s' = events s @ [Visit u, DirectFetch u]" and "visited s' = insert u (visited s)"
  shows "tracedOk V0 s'"
proof -
  have o1: "\<forall>i<length (events s @ [Visit u]). \<forall>w. fetchedUrl ((events s @ [Visit u]) ! i) = Some w
            \<longrightarrow> Visit w \<in> set (take i (events s @ [Visit u]))"
    by (rule ordered_snoc [OF tracedOk_ordered [OF assms(1)]]) simp
  have "\<forall>i<length ((events s @ [Visit u]) @ [DirectFetch u]).
          \<forall>w. fetchedUrl (((events s @ [Visit u]) @ [DirectFetch u]) ! i) = Some w
            \<longrightarrow> Visit w \<in> set (take i ((events s @ [Visit u]) @ [DirectFetch u]))"
    by (rule ordered_snoc [OF o1]) simp
  then have o2: "\<forall>i<length (events s'). \<forall>w. fetchedUrl (events s' ! i) = Some w
            \<longrightarrow> Visit w \<in> set (take i (events s'))"
    by (simp add: assms(3))
  from assms(1,2,4) have "visited s' = V0 \<union> set (visits (events s'))"
    "distinct (visits (events s'))" "set (visits (events s')) \<inter> V0 = {}"
    "directs (events s') = visits (events s')"
    by (auto simp: tracedOk_def assms(3))
  with o2 show ?thesis
    unfolding tracedOk_def by blast
qed

lemma tracedOk_render:
  assumes "tracedOk V0 s" and "Visit u \<in> set (events s)"
    and "events s' = events s @ [RenderFetch u]" and "visited s' = visited s"
  shows "tracedOk V0 s'"
proof -
  have "\<forall>i<length (events s @ [RenderFetch u]).
          \<forall>w. fetchedUrl ((events s @ [RenderFetch u]) ! i) = Some w
            \<longrightarrow> Visit w \<in> set (take i (events s @ [RenderFetch u]))"
    by (rule ordered_snoc [OF tracedOk_ordered [OF assms(1)]]) (simp add: assms(2))
  then have o: "\<forall>i<length (events s'). \<forall>w. fetchedUrl (events s' ! i) = Some w
            \<longrightarrow> Visit w \<in> set (take i (events s'))"
    by (simp add: assms(3))
  from assms(1,4) have "visited s' = V0 \<union> set (visits (events s'))"
    "distinct (visits (events s'))" "set (visits (events s')) \<inter> V0 = {}"
    "directs (events s') = visits (events s')"
    by (auto simp: tracedOk_def assms(3))
  with o show ?thesis
    unfolding tracedOk_def by blast
qed

lemma tracedOk_synth:
  assumes "tracedOk V0 s"
    and "events s' = events s @ [SynthCall q c]" and "visited s' = visited s"
  shows "tracedOk V0 s'"
proof -
  have "\<forall>i<length (events s @ [SynthCall q c]).
          \<forall>w. fetchedUrl ((events s @ [SynthCall q c]) ! i) = Some w
            \<longrightarrow> Visit w \<in> set (take i (events s @ [SynthCall q c]))"
    by (rule ordered_snoc [OF tracedOk_ordered [OF assms(1)]]) simp
  then have o: "\<forall>i<length (events s'). \<forall>w. fetchedUrl (events s' ! i) = Some w
            \<longrightarrow> Visit w \<in> set (take i (events s'))"
    by (simp add: assms(2))
  from assms(1,3) have "visited s' = V0 \<union> set (visits (events s'))"
    "distinct (visits (events s'))" "set (visits (events s')) \<inter> V0 = {}"
    "directs (events s') = visits (events s')"
    by (auto simp: tracedOk_def assms(2))
  with o show ?thesis
    unfolding tracedOk_def by blast
qed

lemma tracedOk_succeed:
  "tracedOk V0 s \<Longrightarrow> tracedOk V0 (snd (succeed W q m sn sc src s))"
  by (rule tracedOk_synth [where q = q and c = sn]) simp_all

lemma crawlLoop_tracedOk:
  "tracedOk V0 s \<Longrightarrow> tracedOk V0 (snd (crawlLoop P W q links s))"
proof (induction links arbitrary: s)
  case Nil
  then show ?case by simp
next
  case (Cons u links)
  show ?case
  proof (cases "u \<in> visited s")
    case True
    with Cons show ?thesis by simp
  next
    case False
    define s2 where "s2 = snd (fetchHtmlRequests W u (visit u s))"
    define s3 where "s3 = snd (fetchHtmlWithScraper W u s2)"
    define s4 where "s4 = snd (extractFromJsRuntime P W u q s3)"
    have t2: "tracedOk V0 s2"
      by (rule tracedOk_trial_start [OF Cons.prems False]) (simp_all add: s2_def)
    have v2: "Visit u \<in> set (events s2)"
      by (simp add: s2_def)
    have t3: "tracedOk V0 s3"
      by (rule tracedOk_render [OF t2 v2]) (simp_all add: s3_def)
    have v3: "Visit u \<in> set (events s3)"
      using v2 by (simp add: s3_def)
    have t4: "tracedOk V0 s4"
      by (rule tracedOk_render [OF t3 v3]) (simp_all add: s4_def)
    have ih: "tracedOk V0 (snd (crawlLoop P W q links s4))"
      by (rule Cons.IH [OF t4])
    from False t2 t3 t4 ih show ?thesis
      by (simp add: Let_def case_prod_beta s2_def s3_def s4_def split: option.split)
  qed
qed

lemma crawlInternalLinks_tracedOk:
  "tracedOk V0 s \<Longrightarrow> tracedOk V0 (snd (crawlInternalLinks P W base html q s))"
  by (simp add: crawlInternalLinks_def Let_def crawlLoop_tracedOk split: sum.split)

lemma deepLoop_tracedOk:
  "tracedOk V0 s \<Longrightarrow> tracedOk V0 (snd (deepLoop P W q urls s))"
proof (induction urls arbitrary: s)
  case Nil
  then show ?case by simp
next
  case (Cons u urls)
  show ?case
  proof (cases "u \<in> visited s")
    case True
    with Cons show ?thesis by simp
  next
    case False
    define s1 where "s1 = push (''Processing '' @ u @ '' with multi-layer extraction'') (visit u s)"
    define s2 where "s2 = snd (fetchHtmlRequests W u s1)"
    define s3 where "s3 = snd (fetchHtmlWithScraper W u s2)"
    define s4 where "s4 = snd (extractFromJsRuntime P W u q s3)"
    have t2: "tracedOk V0 s2"
      by (rule tracedOk_trial_start [OF Cons.prems False]) (simp_all add: s2_def s1_def)
    have v2: "Visit u \<in> set (events s2)"
      by (simp add: s2_def s1_def)
    have t3: "tracedOk V0 s3"
      by (rule tracedOk_render [OF t2 v2]) (simp_all add: s3_def)
    have v3: "Visit u \<in> set (events s3)"
      using v2 by (simp add: s3_def)
    have t4: "tracedOk V0 s4"
      by (rule tracedOk_render [OF t3 v3]) (simp_all add: s4_def)
    have t5: "tracedOk V0 (snd (crawlInternalLinks P W u h q s4))" for h
      by (rule crawlInternalLinks_tracedOk [OF t4])
    have ih4: "tracedOk V0 (snd (deepLoop P W q urls s4))"
      by (rule Cons.IH [OF t4])
    have ih5: "tracedOk V0 (snd (deepLoop P W q urls (snd (crawlInternalLinks P W u h q s4))))" for h
      by (rule Cons.IH [OF t5])
    from False t2 t3 t4 t5 ih4 ih5 show ?thesis
      by (simp add: Let_def case_prod_beta s1_def s2_def s3_def s4_def tracedOk_succeed
               split: option.split)
  qed
qed

lemma deepScrape_tracedOk:
  assumes "events s = []"
  shows "tracedOk (visited s) (snd (deepScrape P W q s))"
proof -
  define s1 where "s1 = snd (performSearch W q (push ''Starting deep scrape orchestration...'' s))"
  have t1: "tracedOk (visited s) s1"
    using assms by (simp add: tracedOk_def s1_def)
  have t3: "tracedOk (visited s) (snd (deepLoop P W q urls (s1\<lparr>debug := d\<rparr>)))" for urls d
    by (rule deepLoop_tracedOk) (simp add: t1)
  from t1 t3 show ?thesis
    by (simp add: deepScrape_def Let_def case_prod_beta s1_def split: option.split)
qed

section \<open>The visited set\<close>

text \<open>
  Claim C1.  In a run (started with an empty event list) no URL is selected for trial
  twice, and none that was visited before the run; a URL is selected by adding it to the
  visited set, and every direct or rendered fetch of a URL comes after that; each
  selected URL is fetched directly exactly once; the visited set only grows, by exactly
  the selected URLs.  This holds for the URLs of the search results and for the links
  found inside pages alike.
\<close>

theorem no_url_tried_twice:
  assumes "events s = []"
  shows "distinct (visits (events (snd (deepScrape P W query s))))
         \<and> directs (events (snd (deepScrape P W query s)))
             = visits (events (snd (deepScrape P W query s)))
         \<and> set (visits (events (snd (deepScrape P W query s)))) \<inter> visited s = {}
         \<and> visited (snd (deepScrape P W query s))
             = visited s \<union> set (visits (events (snd (deepScrape P W query s))))
         \<and> (\<forall>i<length (events (snd (deepScrape P W query s))). \<forall>u.
               fetchedUrl (events (snd (deepScrape P W query s)) ! i) = Some u
               \<longrightarrow> Visit u \<in> set (take i (events (snd (deepScrape P W query s)))))"
  using deepScrape_tracedOk [OF assms, of P W query] unfolding tracedOk_def by blast

theorem no_url_tried_twice_witness:
  "events newRun = []
   \<and> events (snd (deepScrape demoPlatform crawlWorld ''zebra'' newRun))
       = [SearchCall ''zebra'', Visit ''http://ex.com/a'', DirectFetch ''http://ex.com/a'',
          RenderFetch ''http://ex.com/a'', RenderFetch ''http://ex.com/a'',
          Visit ''http://ex.com/b'', DirectFetch ''http://ex.com/b'',
          RenderFetch ''http://ex.com/b'', RenderFetch ''http://ex.com/b'']
   \<and> distinct [''http://ex.com/a'', ''http://ex.com/b'']
   \<and> visited (snd (deepScrape demoPlatform crawlWorld ''zebra'' newRun))
       = {''http://ex.com/a'', ''http://ex.com/b''}"
proof -
  have n: "events newRun = []"
    by (simp add: newRun_def)
  have e: "events (snd (deepScrape demoPlatform crawlWorld ''zebra'' newRun))
       = [SearchCall ''zebra'', Visit ''http://ex.com/a'', DirectFetch ''http://ex.com/a'',
          RenderFetch ''http://ex.com/a'', RenderFetch ''http://ex.com/a'',
          Visit ''http://ex.com/b'', DirectFetch ''http://ex.com/b'',
          RenderFetch ''http://ex.com/b'', RenderFetch ''http://ex.com/b'']"
    by (simp add: eval_defs)
  from no_url_tried_twice [OF n, of demoPlatform crawlWorld "''zebra''"] n e
  show ?thesis
    by (simp add: newRun_def insert_commute)
qed

section \<open>The outcome of a run\<close>

lemma wellFormedSuccess_None [simp]: "wellFormedSuccess None s"
  by (simp add: wellFormedSuccess_def)

lemma wellFormedSuccess_succeed [simp]:
  "wellFormedSuccess (fst (succeed W q m sn sc src s)) (snd (succeed W q m sn sc src s))"
  by (simp add: wellFormedSuccess_def succeed_def case_prod_beta)

lemma deepLoop_wellFormed:
  "wellFormedSuccess (fst (deepLoop P W q urls s)) (snd (deepLoop P W q urls s))"
proof (induction urls arbitrary: s)
  case Nil
  show ?case by simp
next
  case (Cons u urls)
  show ?case
    by (simp add: Let_def case_prod_beta Cons.IH split: option.split)
qed

text \<open>
  Claim C3, as amended.  Every run returns an object with \<open>found\<close>, \<open>snippet\<close>,
  \<open>score\<close>, \<open>source\<close> and \<open>debug\<close> (the run's trace); it has an \<open>answer\<close> property
  (a string or \<open>null\<close>) exactly when \<open>found\<close> is true.  A successful outcome names its
  source; an unsuccessful one has the empty snippet, score 0 and no source.
\<close>

theorem outcome_answer_only_on_success:
  "(answer (fst (deepScrape P W query s)) \<noteq> None) = found (fst (deepScrape P W query s))
   \<and> outDebug (fst (deepScrape P W query s)) = debug (snd (deepScrape P W query s))
   \<and> (if found (fst (deepScrape P W query s))
       then outSource (fst (deepScrape P W query s)) \<noteq> None
       else outSnippet (fst (deepScrape P W query s)) = []
            \<and> outScore (fst (deepScrape P W query s)) = 0
            \<and> outSource (fst (deepScrape P W query s)) = None)"
proof -
  define s2 where "s2 = (snd (performSearch W query (push ''Starting deep scrape orchestration...'' s)))
      \<lparr>debug := (debug (snd (performSearch W query (push ''Starting deep scrape orchestration...'' s))))
          \<lparr>search_results := fst (performSearch W query (push ''Starting deep scrape orchestration...'' s))\<rparr>\<rparr>"
  have w: "wellFormedSuccess (fst (deepLoop P W query urls s2)) (snd (deepLoop P W query urls s2))" for urls
    by (rule deepLoop_wellFormed)
  show ?thesis
    using w [of "fst (performSearch W query (push ''Starting deep scrape orchestration...'' s))"]
    by (simp add: deepScrape_def Let_def case_prod_beta notFound_def wellFormedSuccess_def s2_def
             split: option.splits)
qed

theorem outcome_without_answer_counterexample:
  "\<not> found (fst (deepScrape demoPlatform emptyWorld ''zebra'' newRun))
   \<and> answer (fst (deepScrape demoPlatform emptyWorld ''zebra'' newRun)) = None"
  by (simp add: eval_defs)

theorem outcome_answer_only_on_success_witness:
  "found (fst (deepScrape demoPlatform crawlWorld ''beta'' newRun))
   \<and> answer (fst (deepScrape demoPlatform crawlWorld ''beta'' newRun)) = Some (Some ''42'')
   \<and> outSource (fst (deepScrape demoPlatform crawlWorld ''beta'' newRun)) = Some ''http://ex.com/a''"
proof -
  have a: "answer (fst (deepScrape demoPlatform crawlWorld ''beta'' newRun)) = Some (Some ''42'')"
    and b: "outSource (fst (deepScrape demoPlatform crawlWorld ''beta'' newRun)) = Some ''http://ex.com/a''"
    by (simp_all add: eval_defs)
  from outcome_answer_only_on_success [of demoPlatform crawlWorld "''beta''" newRun] a b
  show ?thesis by simp
qed

text \<open>
  Claim C5.  When the search yields no candidate URL, the run ends at once: \<open>found\<close> is
  false, the snippet empty, the score 0, the source \<open>null\<close>; the last trace entry is
  \<open>No search results found\<close>; the only request of the run is the search, so no direct
  fetch and no rendered fetch is made, and nothing enters the visited set.
\<close>

theorem no_candidates_no_fetch:
  assumes "fst (performSearch W query (push ''Starting deep scrape orchestration...'' s)) = []"
  shows "\<not> found (fst (deepScrape P W query s))
         \<and> outSnippet (fst (deepScrape P W query s)) = []
         \<and> outScore (fst (deepScrape P W query s)) = 0
         \<and> outSource (fst (deepScrape P W query s)) = None
         \<and> last (steps (outDebug (fst (deepScrape P W query s)))) = ''No search results found''
         \<and> search_results (outDebug (fst (deepScrape P W query s))) = []
         \<and> events (snd (deepScrape P W query s)) = events s @ [SearchCall query]
         \<and> visited (snd (deepScrape P W query s)) = visited s"
  using assms by (simp add: deepScrape_def Let_def case_prod_beta notFound_def)

theorem no_candidates_no_fetch_witness:
  "fst (performSearch emptyWorld ''zebra'' (push ''Starting deep scrape orchestration...'' newRun)) = []
   \<and> \<not> found (fst (deepScrape demoPlatform emptyWorld ''zebra'' newRun))
   \<and> events (snd (deepScrape demoPlatform emptyWorld ''zebra'' newRun)) = [SearchCall ''zebra'']
   \<and> steps (outDebug (fst (deepScrape demoPlatform emptyWorld ''zebra'' newRun)))
       = [''Starting deep scrape orchestration...'', ''Searching Google for relevant URLs...'',
          ''Found 0 search results'', ''No search results found'']"
proof -
  have h: "fst (performSearch emptyWorld ''zebra''
                 (push ''Starting deep scrape orchestration...'' newRun)) = []"
    by (simp add: eval_defs)
  have t: "steps (outDebug (fst (deepScrape demoPlatform emptyWorld ''zebra'' newRun)))
       = [''Starting deep scrape orchestration...'', ''Searching Google for relevant URLs...'',
          ''Found 0 search results'', ''No search results found'']"
    by (simp add: eval_defs)
  from no_candidates_no_fetch [OF h, of demoPlatform] h t
  show ?thesis
    by (simp add: newRun_def)
qed

section \<open>The direct fetch\<close>

text \<open>
  Claim C4 says that the direct fetch never throws and that every failure (timeout,
  network or DNS error, response that is not 2xx) gives \<open>null\<close> and a trace entry that
  describes the failure.  The code does so for a rejected request: it appends
  \<open>Fast fetch failed for ...\<close>.  For a response that is not \<open>ok\<close> it returns \<open>null\<close>
  and appends nothing: the trace holds only the \<open>Fetching ...\<close> entry pushed before the
  request.
\<close>

theorem direct_fetch_failure_trace:
  "(directReply W (events s) url = Rejected msg \<longrightarrow>
      fetchHtmlRequests W url s
        = (None, push (''Fast fetch failed for '' @ url @ '': '' @ msg)
                   (emit (DirectFetch url)
                      (push (''Fetching '' @ url @ '' via fast HTTP request'') s))))
   \<and> (directReply W (events s) url = Response status body \<and> \<not> ok status \<longrightarrow>
      fetchHtmlRequests W url s
        = (None, emit (DirectFetch url)
                   (push (''Fetching '' @ url @ '' via fast HTTP request'') s)))"
  by (simp add: fetchHtmlRequests_def)

theorem direct_fetch_failure_trace_witness:
  "directReply crawlWorld (events newRun) ''http://ex.com/b'' = Response 404 (Inr ''gone'')
   \<and> \<not> ok 404
   \<and> fst (fetchHtmlRequests crawlWorld ''http://ex.com/b'' newRun) = None
   \<and> steps (debug (snd (fetchHtmlRequests crawlWorld ''http://ex.com/b'' newRun)))
       = [''Fetching http://ex.com/b via fast HTTP request'']"
proof -
  have r: "directReply crawlWorld (events newRun) ''http://ex.com/b'' = Response 404 (Inr ''gone'')"
    by (simp add: demo_defs)
  have k: "\<not> ok 404"
    by (simp add: ok_def)
  from direct_fetch_failure_trace [of crawlWorld newRun "''http://ex.com/b''" _ 404 "Inr ''gone''"] r k
  show ?thesis
    by (simp add: newRun_def)
qed

section \<open>Embedded-state inspection and rendered markup\<close>

text \<open>
  Claim C8, as amended.  Embedded-state inspection never reuses markup.  Whatever the
  state, \<open>extractFromJsRuntime\<close> sends its own rendered-fetch request for the URL and
  inspects the markup of that reply.  So in the loop of \<open>deepScrape\<close> a trial that gets
  past the direct and the rendered fetch (neither gave an accepted analysis, whether or
  not the rendered fetch returned markup) requests the URL directly once and rendered
  twice, the second time right after the first; the same holds for a link tried by the
  crawl.  When the inspection finds nothing, the link crawl runs on the markup of the
  first rendered fetch if that is not empty, and on the directly fetched markup
  otherwise; when that is missing or empty too, there is no crawl and the loop goes on
  to the next URL.
\<close>

theorem inspection_always_renders:
  "events (snd (extractFromJsRuntime P W url query s)) = events s @ [RenderFetch url]
   \<and> fst (extractFromJsRuntime P W url query s)
       = (case fst (fetchHtmlWithScraper W url (push (''Inspecting runtime data for '' @ url) s)) of
            None \<Rightarrow> None
          | Some h \<Rightarrow>
              if h = [] then None
              else (case runtimeProbes P url query h of
                      Inl msg \<Rightarrow> None
                    | Inr None \<Rightarrow> None
                    | Inr (Some (msg, result)) \<Rightarrow> Some result))
   \<and> (let s1 = push (''Processing '' @ url @ '' with multi-layer extraction'') (visit url s);
           (fastHtml, s2) = fetchHtmlRequests W url s1;
           (scrapedHtml, s3) = fetchHtmlWithScraper W url s2;
           (runtimeResult, s4) = extractFromJsRuntime P W url query s3
       in (url \<notin> visited s \<and> analyzeFetched fastHtml url query = None
             \<and> analyzeFetched scrapedHtml url query = None \<longrightarrow>
           events s3 = events s @ [Visit url, DirectFetch url, RenderFetch url]
           \<and> events s4 = events s3 @ [RenderFetch url]
           \<and> prefix (events s4) (events (snd (deepLoop P W query (url # others) s))))
          \<and> (url \<notin> visited s \<and> analyzeFetched fastHtml url query = None
                \<and> analyzeFetched scrapedHtml url query = None \<and> runtimeResult = None
                \<and> (if truthy scrapedHtml then scrapedHtml else fastHtml) = Some page
                \<and> page \<noteq> [] \<longrightarrow>
              deepLoop P W query (url # others) s
                = (case crawlInternalLinks P W url page query s4 of
                     (Some r, s5) \<Rightarrow>
                       succeed W query (''Found relevant content via internal crawling: '' @ source r)
                         (snippet r) (score r) (source r) s5
                   | (None, s5) \<Rightarrow> deepLoop P W query others s5))
          \<and> (url \<notin> visited s \<and> analyzeFetched fastHtml url query = None
                \<and> analyzeFetched scrapedHtml url query = None \<and> runtimeResult = None
                \<and> \<not> truthy (if truthy scrapedHtml then scrapedHtml else fastHtml) \<longrightarrow>
              deepLoop P W query (url # others) s = deepLoop P W query others s4))
   \<and> (let s1 = visit url s;
           (html, s2) = fetchHtmlRequests W url s1;
           (scrapedHtml, s3) = fetchHtmlWithScraper W url s2;
           (runtimeResult, s4) = extractFromJsRuntime P W url query s3
       in url \<notin> visited s \<and> analyzeFetched html url query = None
            \<and> analyzeFetched scrapedHtml url query = None \<longrightarrow>
          events s3 = events s @ [Visit url, DirectFetch url, RenderFetch url]
          \<and> events s4 = events s3 @ [RenderFetch url]
          \<and> prefix (events s4) (events (snd (crawlLoop P W query (url # others) s))))"
proof (intro conjI)
  show "events (snd (extractFromJsRuntime P W url query s)) = events s @ [RenderFetch url]"
    by simp
next
  show "fst (extractFromJsRuntime P W url query s)
       = (case fst (fetchHtmlWithScraper W url (push (''Inspecting runtime data for '' @ url) s)) of
            None \<Rightarrow> None
          | Some h \<Rightarrow>
              if h = [] then None
              else (case runtimeProbes P url query h of
                      Inl msg \<Rightarrow> None
                    | Inr None \<Rightarrow> None
                    | Inr (Some (msg, result)) \<Rightarrow> Some result))"
    by (simp add: extractFromJsRuntime_def Let_def case_prod_beta split: option.split sum.split)
next
  show "(let s1 = push (''Processing '' @ url @ '' with multi-layer extraction'') (visit url s);
           (fastHtml, s2) = fetchHtmlRequests W url s1;
           (scrapedHtml, s3) = fetchHtmlWithScraper W url s2;
           (runtimeResult, s4) = extractFromJsRuntime P W url query s3
       in (url \<notin> visited s \<and> analyzeFetched fastHtml url query = None
             \<and> analyzeFetched scrapedHtml url query = None \<longrightarrow>
           events s3 = events s @ [Visit url, DirectFetch url, RenderFetch url]
           \<and> events s4 = events s3 @ [RenderFetch url]
           \<and> prefix (events s4) (events (snd (deepLoop P W query (url # others) s))))
          \<and> (url \<notin> visited s \<and> analyzeFetched fastHtml url query = None
                \<and> analyzeFetched scrapedHtml url query = None \<and> runtimeResult = None
                \<and> (if truthy scrapedHtml then scrapedHtml else fastHtml) = Some page
                \<and> page \<noteq> [] \<longrightarrow>
              deepLoop P W query (url # others) s
                = (case crawlInternalLinks P W url page query s4 of
                     (Some r, s5) \<Rightarrow>
                       succeed W query (''Found relevant content via internal crawling: '' @ source r)
                         (snippet r) (score r) (source r) s5
                   | (None, s5) \<Rightarrow> deepLoop P W query others s5))
          \<and> (url \<notin> visited s \<and> analyzeFetched fastHtml url query = None
                \<and> analyzeFetched scrapedHtml url query = None \<and> runtimeResult = None
                \<and> \<not> truthy (if truthy scrapedHtml then scrapedHtml else fastHtml) \<longrightarrow>
              deepLoop P W query (url # others) s = deepLoop P W query others s4))"
    by (simp add: Let_def case_prod_beta MAX_CRAWL_DEPTH_def truthy_def split: option.split)
next
  show "(let s1 = visit url s;
           (html, s2) = fetchHtmlRequests W url s1;
           (scrapedHtml, s3) = fetchHtmlWithScraper W url s2;
           (runtimeResult, s4) = extractFromJsRuntime P W url query s3
       in url \<notin> visited s \<and> analyzeFetched html url query = None
            \<and> analyzeFetched scrapedHtml url query = None \<longrightarrow>
          events s3 = events s @ [Visit url, DirectFetch url, RenderFetch url]
          \<and> events s4 = events s3 @ [RenderFetch url]
          \<and> prefix (events s4) (events (snd (crawlLoop P W query (url # others) s))))"
    by (simp add: Let_def case_prod_beta split: option.split)
qed

text \<open>A run in which the rendered fetch of the second tier returned markup, and the
  inspection rendered the same URL again.\<close>

theorem inspection_rerenders_counterexample:
  "renderReply renderWorld
       [SearchCall ''zebra'', Visit ''http://ex.com/a'', DirectFetch ''http://ex.com/a'']
       ''http://ex.com/a''
     = Response 200 (Inr ''<p>hi</p>'')
   \<and> events (snd (deepScrape demoPlatform renderWorld ''zebra'' newRun))
       = [SearchCall ''zebra'', Visit ''http://ex.com/a'', DirectFetch ''http://ex.com/a'',
          RenderFetch ''http://ex.com/a'', RenderFetch ''http://ex.com/a'']
   \<and> steps (debug (snd (deepScrape demoPlatform renderWorld ''zebra'' newRun)))
       = [''Starting deep scrape orchestration...'',
          ''Searching Google for relevant URLs...'',
          ''Found 1 search results'',
          ''Processing http://ex.com/a with multi-layer extraction'',
          ''Fetching http://ex.com/a via fast HTTP request'',
          ''Fast fetch failed for http://ex.com/a: timeout'',
          ''Scraping http://ex.com/a with web scraper (JS rendering)'',
          ''Successfully scraped http://ex.com/a with JS rendering (9 chars)'',
          ''Inspecting runtime data for http://ex.com/a'',
          ''Scraping http://ex.com/a with web scraper (JS rendering)'',
          ''Successfully scraped http://ex.com/a with JS rendering (9 chars)'',
          ''Crawling internal links on http://ex.com/a'',
          ''Found 0 internal links to check'',
          ''No relevant content found in any source'']"
  by (simp add: eval_defs)

theorem inspection_always_renders_witness:
  "''http://ex.com/a'' \<notin> visited newRun
   \<and> analyzeFetched (Some ''<p>hi</p>'') ''http://ex.com/a'' ''zebra'' = None
   \<and> events (snd (extractFromJsRuntime demoPlatform renderWorld ''http://ex.com/a'' ''zebra'' newRun))
       = [RenderFetch ''http://ex.com/a'']
   \<and> prefix [Visit ''http://ex.com/a'', DirectFetch ''http://ex.com/a'',
              RenderFetch ''http://ex.com/a'', RenderFetch ''http://ex.com/a'']
        (events (snd (deepLoop demoPlatform renderWorld ''zebra'' [''http://ex.com/a''] newRun)))
   \<and> prefix [Visit ''http://ex.com/a'', DirectFetch ''http://ex.com/a'',
              RenderFetch ''http://ex.com/a'', RenderFetch ''http://ex.com/a'']
        (events (snd (crawlLoop demoPlatform renderWorld ''zebra'' [''http://ex.com/a''] newRun)))
   \<and> (\<exists>s4. events s4 = [Visit ''http://ex.com/a'', DirectFetch ''http://ex.com/a'',
                          RenderFetch ''http://ex.com/a'', RenderFetch ''http://ex.com/a'']
          \<and> deepLoop demoPlatform renderWorld ''zebra'' [''http://ex.com/a''] newRun
              = (case crawlInternalLinks demoPlatform renderWorld ''http://ex.com/a'' ''<p>hi</p>''
                        ''zebra'' s4 of
                   (Some r, s5) \<Rightarrow>
                     succeed renderWorld ''zebra''
                       (''Found relevant content via internal crawling: '' @ source r)
                       (snippet r) (score r) (source r) s5
                 | (None, s5) \<Rightarrow> deepLoop demoPlatform renderWorld ''zebra'' [] s5))
   \<and> (\<exists>s4. events s4 = [Visit ''http://ex.com/a'', DirectFetch ''http://ex.com/a'',
                          RenderFetch ''http://ex.com/a'', RenderFetch ''http://ex.com/a'']
          \<and> deepLoop demoPlatform emptyBodyWorld ''zebra'' [''http://ex.com/a''] newRun
              = (None, s4))"
proof -
  define s1 where
    "s1 = push (''Processing '' @ ''http://ex.com/a'' @ '' with multi-layer extraction'')
            (visit ''http://ex.com/a'' newRun)"
  define s2 where "s2 = snd (fetchHtmlRequests renderWorld ''http://ex.com/a'' s1)"
  define s3 where "s3 = snd (fetchHtmlWithScraper renderWorld ''http://ex.com/a'' s2)"
  define s4 where
    "s4 = snd (extractFromJsRuntime demoPlatform renderWorld ''http://ex.com/a'' ''zebra'' s3)"
  have v: "''http://ex.com/a'' \<notin> visited newRun"
    by (simp add: newRun_def)
  have d: "fst (fetchHtmlRequests renderWorld ''http://ex.com/a'' s) = None" for s
    by (simp add: fetchHtmlRequests_def renderWorld_def)
  have r: "fst (fetchHtmlWithScraper renderWorld ''http://ex.com/a'' s) = Some ''<p>hi</p>''" for s
    by (simp add: fetchHtmlWithScraper_def renderWorld_def ok_def)
  have a: "analyzeFetched (Some ''<p>hi</p>'') ''http://ex.com/a'' ''zebra'' = None"
    by (simp add: eval_defs)
  have p: "runtimeProbes demoPlatform ''http://ex.com/a'' ''zebra'' ''<p>hi</p>'' = Inr None"
    by (simp add: eval_defs)
  note inst =
    inspection_always_renders
      [of demoPlatform renderWorld "''http://ex.com/a''" "''zebra''" newRun "[]" "''<p>hi</p>''"]
  have i: "fst (extractFromJsRuntime demoPlatform renderWorld ''http://ex.com/a'' ''zebra'' s) = None"
    for s
    by (simp add: extractFromJsRuntime_def Let_def case_prod_beta r p)
  have n: "analyzeFetched None u q = None" for u q
    by (simp add: analyzeFetched_def)
  from inst have 1:
    "events (snd (extractFromJsRuntime demoPlatform renderWorld ''http://ex.com/a'' ''zebra'' newRun))
       = [RenderFetch ''http://ex.com/a'']"
    by (simp add: newRun_def)
  from inst v a have 2:
    "prefix [Visit ''http://ex.com/a'', DirectFetch ''http://ex.com/a'',
             RenderFetch ''http://ex.com/a'', RenderFetch ''http://ex.com/a'']
        (events (snd (deepLoop demoPlatform renderWorld ''zebra'' [''http://ex.com/a''] newRun)))"
    by (simp add: Let_def case_prod_beta d r n newRun_def del: deepLoop.simps crawlLoop.simps)
  from inst v a have 3:
    "prefix [Visit ''http://ex.com/a'', DirectFetch ''http://ex.com/a'',
             RenderFetch ''http://ex.com/a'', RenderFetch ''http://ex.com/a'']
        (events (snd (crawlLoop demoPlatform renderWorld ''zebra'' [''http://ex.com/a''] newRun)))"
    by (simp add: Let_def case_prod_beta d r n newRun_def del: deepLoop.simps crawlLoop.simps)
  from inst v a have
    "events s4 = [Visit ''http://ex.com/a'', DirectFetch ''http://ex.com/a'',
                  RenderFetch ''http://ex.com/a'', RenderFetch ''http://ex.com/a'']
     \<and> deepLoop demoPlatform renderWorld ''zebra'' [''http://ex.com/a''] newRun
         = (case crawlInternalLinks demoPlatform renderWorld ''http://ex.com/a'' ''<p>hi</p>''
                   ''zebra'' s4 of
              (Some r, s5) \<Rightarrow>
                succeed renderWorld ''zebra''
                  (''Found relevant content via internal crawling: '' @ source r)
                  (snippet r) (score r) (source r) s5
            | (None, s5) \<Rightarrow> deepLoop demoPlatform renderWorld ''zebra'' [] s5)"
    by (simp add: s4_def s3_def s2_def s1_def Let_def case_prod_beta d r i n truthy_def newRun_def
             del: deepLoop.simps crawlLoop.simps)
  then have 4:
    "\<exists>s4. events s4 = [Visit ''http://ex.com/a'', DirectFetch ''http://ex.com/a'',
                        RenderFetch ''http://ex.com/a'', RenderFetch ''http://ex.com/a'']
       \<and> deepLoop demoPlatform renderWorld ''zebra'' [''http://ex.com/a''] newRun
           = (case crawlInternalLinks demoPlatform renderWorld ''http://ex.com/a'' ''<p>hi</p>''
                     ''zebra'' s4 of
                (Some r, s5) \<Rightarrow>
                  succeed renderWorld ''zebra''
                    (''Found relevant content via internal crawling: '' @ source r)
                    (snippet r) (score r) (source r) s5
              | (None, s5) \<Rightarrow> deepLoop demoPlatform renderWorld ''zebra'' [] s5)"
    by (rule exI)
  define e1 where
    "e1 = push (''Processing '' @ ''http://ex.com/a'' @ '' with multi-layer extraction'')
            (visit ''http://ex.com/a'' newRun)"
  define e2 where "e2 = snd (fetchHtmlRequests emptyBodyWorld ''http://ex.com/a'' e1)"
  define e3 where "e3 = snd (fetchHtmlWithScraper emptyBodyWorld ''http://ex.com/a'' e2)"
  define e4 where
    "e4 = snd (extractFromJsRuntime demoPlatform emptyBodyWorld ''http://ex.com/a'' ''zebra'' e3)"
  have ed: "fst (fetchHtmlRequests emptyBodyWorld ''http://ex.com/a'' s) = Some []" for s
    by (simp add: fetchHtmlRequests_def emptyBodyWorld_def ok_def)
  have er: "fst (fetchHtmlWithScraper emptyBodyWorld ''http://ex.com/a'' s) = Some []" for s
    by (simp add: fetchHtmlWithScraper_def emptyBodyWorld_def ok_def)
  have ei: "fst (extractFromJsRuntime demoPlatform emptyBodyWorld ''http://ex.com/a'' ''zebra'' s)
              = None" for s
    by (simp add: extractFromJsRuntime_def Let_def case_prod_beta er)
  note empty =
    inspection_always_renders
      [of demoPlatform emptyBodyWorld "''http://ex.com/a''" "''zebra''" newRun "[]" "[]"]
  have ea: "analyzeFetched (Some []) u q = None" for u q
    by (simp add: analyzeFetched_def)
  from empty v ea have
    "events e4 = [Visit ''http://ex.com/a'', DirectFetch ''http://ex.com/a'',
                  RenderFetch ''http://ex.com/a'', RenderFetch ''http://ex.com/a'']
     \<and> deepLoop demoPlatform emptyBodyWorld ''zebra'' [''http://ex.com/a''] newRun = (None, e4)"
    by (simp add: e4_def e3_def e2_def e1_def Let_def case_prod_beta ed er ei truthy_def newRun_def
             del: deepLoop.simps(2) crawlLoop.simps(2))
  then have 5:
    "\<exists>s4. events s4 = [Visit ''http://ex.com/a'', DirectFetch ''http://ex.com/a'',
                        RenderFetch ''http://ex.com/a'', RenderFetch ''http://ex.com/a'']
       \<and> deepLoop demoPlatform emptyBodyWorld ''zebra'' [''http://ex.com/a''] newRun = (None, s4)"
    by (rule exI)
  from v a 1 2 3 4 5 show ?thesis
    by (intro conjI)
qed

section \<open>Query words of the embedded-state probes\<close>

subsection \<open>The fragments of a query\<close>

lemma includes_str_empty [simp]: "includes_str t []"
  by (cases t) simp_all

lemma splitOn_not_Nil [simp]: "splitOn d s \<noteq> []"
  by (induction s) (simp_all split: list.split)

lemma splitOn_double_separator: "[] \<in> set (tl (splitOn d (a @ d # d # b)))"
  by (induction a) (auto split: list.split)

lemma lowerChar_space [simp]: "lowerChar CHR '' '' = CHR '' ''"
  by (simp add: string_defs)

lemma queryMatches_double_space:
  "queryMatches (a @ CHR '' '' # CHR '' '' # b) text"
proof -
  have "[] \<in> set (tl (splitOn CHR '' '' (toLowerCase a @ CHR '' '' # CHR '' '' # toLowerCase b)))"
    by (rule splitOn_double_separator)
  then have "[] \<in> set (splitOn CHR '' '' (toLowerCase (a @ CHR '' '' # CHR '' '' # b)))"
    by (simp add: toLowerCase_def list.set_sel(2))
  then show ?thesis
    unfolding queryMatches_def list_ex_iff by (rule bexI [rotated]) simp
qed

lemma queryMatches_fragment:
  "w \<in> set (splitOn CHR '' '' (toLowerCase query)) \<Longrightarrow> includes_str (toLowerCase text) w
     \<Longrightarrow> queryMatches query text"
  unfolding queryMatches_def list_ex_iff by blast

lemma probeJsonLd_first:
  "queryMatches query (jsonStringify P j) \<Longrightarrow>
     probeJsonLd P url query (j # js)
       = Some (''Found relevant JSON-LD data in '' @ url,
               \<lparr>snippet = cleanText (jsonStringify P j) 1200, score = 9 / 10\<rparr>)"
  by (simp add: Let_def)

lemma splitOn_join: "concat (map ((#) d) (splitOn d s)) = d # s"
  by (induction s) (auto split: list.split)

lemma splitOn_no_separator: "d \<notin> set (concat (splitOn d s))"
  by (induction s) (auto split: list.splits)

lemma queryMatches_iff:
  "queryMatches query text
     \<longleftrightarrow> (\<exists>w\<in>set (splitOn CHR '' '' (toLowerCase query)). includes_str (toLowerCase text) w)"
  by (simp add: queryMatches_def list_ex_iff)

lemma includes_str_single: "includes_str t [x] \<longleftrightarrow> x \<in> set t"
  by (induction t) auto

lemma lowerChar_eq_space: "lowerChar c = CHR '' '' \<longleftrightarrow> c = CHR '' ''"
  by (cases c) (auto simp add: lowerChar_def code_def Let_def char_of_def bit_Suc_0_iff)

lemma queryMatches_single:
  "c \<noteq> CHR '' '' \<Longrightarrow> queryMatches [c] text \<longleftrightarrow> lowerChar c \<in> set (toLowerCase text)"
  by (simp add: queryMatches_def toLowerCase_def lowerChar_eq_space includes_str_single)

lemma probeJsonLd_find:
  "probeJsonLd P url query js
     = (case find (\<lambda>j. queryMatches query (jsonStringify P j)) js of
          None \<Rightarrow> None
        | Some j \<Rightarrow> Some (''Found relevant JSON-LD data in '' @ url,
                          \<lparr>snippet = cleanText (jsonStringify P j) 1200, score = 9 / 10\<rparr>))"
  by (induction js) (simp_all add: Let_def)

subsection \<open>The page with one JSON-LD block\<close>

lemma jsonLdPage_blocks: "extractJsonLd demoPlatform jsonLdPage = [''{\"x\":1}'']"
  by (simp add: eval_defs)

lemma jsonLdPage_attrs: "matchAll True re_data_attr jsonLdPage = []"
  by (simp add: eval_defs)

lemma jsonLdPage_scripts: "matchAll True re_script jsonLdPage = [jsonLdPage]"
  by (simp add: eval_defs)

lemma jsonLdPage_script_content:
  "replaceAll True re_script_tags [] jsonLdPage = ''{\"x\":1}''"
  by (simp add: eval_defs)

lemma block_no_window_variable:
  "probePatterns demoPlatform ''u'' ''y'' ''{\"x\":1}'' windowVarPatterns = None"
  by (simp add: eval_defs)

lemma block_without_y: "probeJsonLd demoPlatform ''u'' ''y'' [''{\"x\":1}''] = None"
  by (simp add: eval_defs)

subsection \<open>What the probes accept\<close>

text \<open>
  Claim C9, as amended.  The probes split the lower-cased query at single spaces and
  filter nothing: the fragments, joined again by single spaces, are the whole query, and
  no fragment holds a space; every token of the analyzer, in contrast, is made of two or
  more word characters.  All three probes test a text in the same way, and it passes
  exactly when its lower-cased form contains one of the fragments.  The JSON-LD probe
  accepts the first parsed block whose serialized text passes, with score 0.9, and no
  block when none passes (then the other two probes run); the data-attribute probe
  accepts a non-empty value that passes or holds a digit, the window-variable probe a
  parsed object whose serialized text passes.

  For a query with two consecutive spaces there is an empty fragment, which every text
  contains: every text passes, and the JSON-LD probe accepts the first block that
  parses, whatever it says.  A query that is a single character other than a space has
  no token for the analyzer but is a fragment for the probes; a text then passes exactly
  when it contains that character (in lower case), so with such a query the JSON-LD
  probe accepts the blocks that contain the character and no other block.
\<close>

theorem jsonld_probe_unfiltered_words:
  "concat (map ((#) CHR '' '') (splitOn CHR '' '' q)) = CHR '' '' # q
   \<and> CHR '' '' \<notin> set (concat (splitOn CHR '' '' q))
   \<and> (queryMatches query content
        \<longleftrightarrow> (\<exists>w\<in>set (splitOn CHR '' '' (toLowerCase query)).
               includes_str (toLowerCase content) w))
   \<and> probeJsonLd P url query blocks
       = (case find (\<lambda>j. queryMatches query (jsonStringify P j)) blocks of
            None \<Rightarrow> None
          | Some j \<Rightarrow> Some (''Found relevant JSON-LD data in '' @ url,
                            \<lparr>snippet = cleanText (jsonStringify P j) 1200, score = 9 / 10\<rparr>))
   \<and> runtimeProbes P url query html
       = (case find (\<lambda>j. queryMatches query (jsonStringify P j)) (extractJsonLd P html) of
            Some j \<Rightarrow> Inr (Some (''Found relevant JSON-LD data in '' @ url,
                                  \<lparr>snippet = cleanText (jsonStringify P j) 1200, score = 9 / 10\<rparr>))
          | None \<Rightarrow>
              (case probeDataAttrs url query (matchAll True re_data_attr html) of
                 Inl msg \<Rightarrow> Inl msg
               | Inr (Some finding) \<Rightarrow> Inr (Some finding)
               | Inr None \<Rightarrow> Inr (probeScripts P url query (matchAll True re_script html))))
   \<and> queryMatches (a @ ''  '' @ b) content
   \<and> (extractJsonLd P html = j # js \<longrightarrow>
        runtimeProbes P url (a @ ''  '' @ b) html
          = Inr (Some (''Found relevant JSON-LD data in '' @ url,
                       \<lparr>snippet = cleanText (jsonStringify P j) 1200, score = 9 / 10\<rparr>)))
   \<and> (extractJsonLd P html = j # js
        \<and> w \<in> set (splitOn CHR '' '' (toLowerCase query))
        \<and> includes_str (toLowerCase (jsonStringify P j)) w \<longrightarrow>
      runtimeProbes P url query html
        = Inr (Some (''Found relevant JSON-LD data in '' @ url,
                     \<lparr>snippet = cleanText (jsonStringify P j) 1200, score = 9 / 10\<rparr>)))
   \<and> (\<forall>t\<in>set (queryWords query). 2 \<le> length t \<and> list_all isWordChar t)
   \<and> queryWords [c] = []
   \<and> (c \<noteq> CHR '' '' \<longrightarrow>
        (queryMatches [c] content \<longleftrightarrow> lowerChar c \<in> set (toLowerCase content)))
   \<and> (exec False re_attr_value m = Some h \<and> group 1 h = Some v \<longrightarrow>
        probeDataAttrs url query (m # ms)
          = (if v \<noteq> [] \<and> (queryMatches query v \<or> test False re_money v)
             then Inr (Some (''Found relevant data attribute in '' @ url @ '': '' @ v,
                             \<lparr>snippet = cleanText v 400, score = 85 / 100\<rparr>))
             else probeDataAttrs url query ms))
   \<and> (exec False pattern scriptContent = Some h' \<and> group 1 h' = Some captured
        \<and> captured \<noteq> [] \<and> jsonParse P captured = Some parsed \<longrightarrow>
        probePatterns P url query scriptContent (pattern # patterns)
          = (if queryMatches query (jsonStringify P parsed)
             then Some (''Found relevant window variable data in '' @ url,
                        \<lparr>snippet = cleanText (jsonStringify P parsed) 1200, score = 95 / 100\<rparr>)
             else probePatterns P url query scriptContent patterns))"
proof (intro conjI impI)
  show "concat (map ((#) CHR '' '') (splitOn CHR '' '' q)) = CHR '' '' # q"
    by (rule splitOn_join)
next
  show "CHR '' '' \<notin> set (concat (splitOn CHR '' '' q))"
    by (rule splitOn_no_separator)
next
  show "queryMatches query content
        \<longleftrightarrow> (\<exists>w\<in>set (splitOn CHR '' '' (toLowerCase query)).
               includes_str (toLowerCase content) w)"
    by (rule queryMatches_iff)
next
  show "probeJsonLd P url query blocks
       = (case find (\<lambda>j. queryMatches query (jsonStringify P j)) blocks of
            None \<Rightarrow> None
          | Some j \<Rightarrow> Some (''Found relevant JSON-LD data in '' @ url,
                            \<lparr>snippet = cleanText (jsonStringify P j) 1200, score = 9 / 10\<rparr>))"
    by (rule probeJsonLd_find)
next
  show "runtimeProbes P url query html
       = (case find (\<lambda>j. queryMatches query (jsonStringify P j)) (extractJsonLd P html) of
            Some j \<Rightarrow> Inr (Some (''Found relevant JSON-LD data in '' @ url,
                                  \<lparr>snippet = cleanText (jsonStringify P j) 1200, score = 9 / 10\<rparr>))
          | None \<Rightarrow>
              (case probeDataAttrs url query (matchAll True re_data_attr html) of
                 Inl msg \<Rightarrow> Inl msg
               | Inr (Some finding) \<Rightarrow> Inr (Some finding)
               | Inr None \<Rightarrow> Inr (probeScripts P url query (matchAll True re_script html))))"
    by (simp add: runtimeProbes_def probeJsonLd_find split: option.split)
next
  show "queryMatches (a @ ''  '' @ b) content"
    using queryMatches_double_space [of a b] by simp
next
  assume e: "extractJsonLd P html = j # js"
  have "queryMatches (a @ ''  '' @ b) (jsonStringify P j)"
    using queryMatches_double_space [of a b] by simp
  from probeJsonLd_first [OF this] e
  show "runtimeProbes P url (a @ ''  '' @ b) html
        = Inr (Some (''Found relevant JSON-LD data in '' @ url,
                     \<lparr>snippet = cleanText (jsonStringify P j) 1200, score = 9 / 10\<rparr>))"
    by (simp add: runtimeProbes_def)
next
  assume h: "extractJsonLd P html = j # js
        \<and> w \<in> set (splitOn CHR '' '' (toLowerCase query))
        \<and> includes_str (toLowerCase (jsonStringify P j)) w"
  then have "queryMatches query (jsonStringify P j)"
    by (blast intro: queryMatches_fragment)
  from probeJsonLd_first [OF this] h
  show "runtimeProbes P url query html
        = Inr (Some (''Found relevant JSON-LD data in '' @ url,
                     \<lparr>snippet = cleanText (jsonStringify P j) 1200, score = 9 / 10\<rparr>))"
    by (simp add: runtimeProbes_def)
next
  show "\<forall>t\<in>set (queryWords query). 2 \<le> length t \<and> list_all isWordChar t"
    by (blast dest: queryWords_tokens)
next
  show "queryWords [c] = []"
    by (simp add: queryWords_empty_iff toLowerCase_def)
next
  assume "c \<noteq> CHR '' ''"
  then show "queryMatches [c] content \<longleftrightarrow> lowerChar c \<in> set (toLowerCase content)"
    by (rule queryMatches_single)
next
  assume "exec False re_attr_value m = Some h \<and> group 1 h = Some v"
  then show "probeDataAttrs url query (m # ms)
          = (if v \<noteq> [] \<and> (queryMatches query v \<or> test False re_money v)
             then Inr (Some (''Found relevant data attribute in '' @ url @ '': '' @ v,
                             \<lparr>snippet = cleanText v 400, score = 85 / 100\<rparr>))
             else probeDataAttrs url query ms)"
    by simp
next
  assume "exec False pattern scriptContent = Some h' \<and> group 1 h' = Some captured
        \<and> captured \<noteq> [] \<and> jsonParse P captured = Some parsed"
  then show "probePatterns P url query scriptContent (pattern # patterns)
          = (if queryMatches query (jsonStringify P parsed)
             then Some (''Found relevant window variable data in '' @ url,
                        \<lparr>snippet = cleanText (jsonStringify P parsed) 1200, score = 95 / 100\<rparr>)
             else probePatterns P url query scriptContent patterns)"
    by (simp add: Let_def)
qed

text \<open>The query \<open>y\<close> is a single-character word, the block \<open>{"x":1}\<close> parses, and
  the probes accept nothing on the page.\<close>

theorem single_character_word_counterexample:
  "extractJsonLd demoPlatform jsonLdPage = [''{\"x\":1}'']
   \<and> splitOn CHR '' '' (toLowerCase ''y'') = [''y'']
   \<and> runtimeProbes demoPlatform ''u'' ''y'' jsonLdPage = Inr None"
proof -
  have "splitOn CHR '' '' (toLowerCase ''y'') = [''y'']"
    by (simp add: string_defs)
  moreover have "runtimeProbes demoPlatform ''u'' ''y'' jsonLdPage = Inr None"
    by (simp add: runtimeProbes_def jsonLdPage_blocks jsonLdPage_attrs jsonLdPage_scripts
          jsonLdPage_script_content block_no_window_variable block_without_y
          del: probeJsonLd.simps)
  ultimately show ?thesis
    using jsonLdPage_blocks by simp
qed

theorem jsonld_probe_unfiltered_words_witness:
  "extractJsonLd demoPlatform jsonLdPage = [''{\"x\":1}'']
   \<and> runtimeProbes demoPlatform ''u'' ''stock  price'' jsonLdPage
       = Inr (Some (''Found relevant JSON-LD data in u'',
                    \<lparr>snippet = ''{\"x\":1}'', score = 9 / 10\<rparr>))
   \<and> queryWords ''stock  price'' = [''stock'', ''price'']
   \<and> list_all isWordChar ''stock'' \<and> list_all isWordChar ''price''
   \<and> analyzeHtmlForQuery ''{\"x\":1}'' ''u'' ''stock  price'' = None
   \<and> queryWords ''x'' = []
   \<and> runtimeProbes demoPlatform ''u'' ''x'' jsonLdPage
       = Inr (Some (''Found relevant JSON-LD data in u'',
                    \<lparr>snippet = ''{\"x\":1}'', score = 9 / 10\<rparr>))
   \<and> probeDataAttrs ''u'' ''x'' [''data-value=\"box\"'']
       = Inr (Some (''Found relevant data attribute in u: box'',
                    \<lparr>snippet = ''box'', score = 85 / 100\<rparr>))
   \<and> probePatterns demoPlatform ''u'' ''x'' ''__NEXT_DATA__ = {\"x\":1};''
         [Seq (Str ''__NEXT_DATA__'') re_assigned_object]
       = Some (''Found relevant window variable data in u'',
               \<lparr>snippet = ''{\"x\":1}'', score = 95 / 100\<rparr>)
   \<and> \<not> queryMatches ''y'' ''{\"x\":1}''
   \<and> probeJsonLd demoPlatform ''u'' ''y'' [''{\"x\":1}''] = None"
proof -
  note e = jsonLdPage_blocks
  have c: "cleanText ''{\"x\":1}'' 1200 = ''{\"x\":1}''" "cleanText ''box'' 400 = ''box''"
    by (simp_all add: eval_defs)
  have q: "queryWords ''stock  price'' = [''stock'', ''price'']"
    by (simp add: eval_defs)
  have n: "analyzeHtmlForQuery ''{\"x\":1}'' ''u'' ''stock  price'' = None"
    by (simp add: eval_defs)
  have s: "''x'' \<in> set (splitOn CHR '' '' (toLowerCase ''x''))"
    and i: "includes_str (toLowerCase (jsonStringify demoPlatform ''{\"x\":1}'')) ''x''"
    and y: "lowerChar CHR ''y'' \<notin> set (toLowerCase ''{\"x\":1}'')"
    by (simp_all add: eval_defs)
  have d: "exec False re_attr_value ''data-value=\"box\"''
             = Some \<lparr>whole = ''=\"box\"'', groups = [(1, ''box'')]\<rparr>"
    and dq: "queryMatches ''x'' ''box''"
    by (simp_all add: eval_defs)
  have p: "exec False (Seq (Str ''__NEXT_DATA__'') re_assigned_object)
                ''__NEXT_DATA__ = {\"x\":1};''
             = Some \<lparr>whole = ''__NEXT_DATA__ = {\"x\":1};'', groups = [(1, ''{\"x\":1}'')]\<rparr>"
    and pq: "queryMatches ''x'' ''{\"x\":1}''"
    by (simp_all add: eval_defs)
  have g: "group 1 \<lparr>whole = ''=\"box\"'', groups = [(1, ''box'')]\<rparr> = Some ''box''"
          "group 1 \<lparr>whole = ''__NEXT_DATA__ = {\"x\":1};'', groups = [(1, ''{\"x\":1}'')]\<rparr>
             = Some ''{\"x\":1}''"
    by (simp_all add: group_def)
  have k: "''{\"x\":1}'' \<noteq> []" "jsonParse demoPlatform ''{\"x\":1}'' = Some ''{\"x\":1}''"
          "CHR ''x'' \<noteq> CHR '' ''" "CHR ''y'' \<noteq> CHR '' ''"
    by (simp_all add: demoPlatform_def)
  note accepted =
    jsonld_probe_unfiltered_words
      [where q = "''x''" and query = "''x''" and content = "''{\"x\":1}''"
         and P = demoPlatform and url = "''u''" and blocks = "[''{\"x\":1}'']"
         and html = jsonLdPage and a = "''stock''" and b = "''price''"
         and j = "''{\"x\":1}''" and js = "[]" and w = "''x''" and c = "CHR ''x''"
         and m = "''data-value=\"box\"''"
         and h = "\<lparr>whole = ''=\"box\"'', groups = [(1, ''box'')]\<rparr>"
         and v = "''box''" and ms = "[]"
         and pattern = "Seq (Str ''__NEXT_DATA__'') re_assigned_object"
         and scriptContent = "''__NEXT_DATA__ = {\"x\":1};''"
         and h' = "\<lparr>whole = ''__NEXT_DATA__ = {\"x\":1};'', groups = [(1, ''{\"x\":1}'')]\<rparr>"
         and captured = "''{\"x\":1}''" and parsed = "''{\"x\":1}''" and patterns = "[]"]
  note passed =
    jsonld_probe_unfiltered_words
      [where q = "''y''" and query = "''y''" and content = "''{\"x\":1}''"
         and P = demoPlatform and url = "''u''" and blocks = "[''{\"x\":1}'']"
         and html = jsonLdPage and a = "''stock''" and b = "''price''"
         and j = "''{\"x\":1}''" and js = "[]" and w = "''y''" and c = "CHR ''y''"
         and m = "''data-value=\"box\"''"
         and h = "\<lparr>whole = ''=\"box\"'', groups = [(1, ''box'')]\<rparr>"
         and v = "''box''" and ms = "[]"
         and pattern = "Seq (Str ''__NEXT_DATA__'') re_assigned_object"
         and scriptContent = "''__NEXT_DATA__ = {\"x\":1};''"
         and h' = "\<lparr>whole = ''__NEXT_DATA__ = {\"x\":1};'', groups = [(1, ''{\"x\":1}'')]\<rparr>"
         and captured = "''{\"x\":1}''" and parsed = "''{\"x\":1}''" and patterns = "[]"]
  note tokens =
    jsonld_probe_unfiltered_words
      [where q = "''y''" and query = "''stock  price''" and content = "''{\"x\":1}''"
         and P = demoPlatform and url = "''u''" and blocks = "[''{\"x\":1}'']"
         and html = jsonLdPage and a = "''stock''" and b = "''price''"
         and j = "''{\"x\":1}''" and js = "[]" and w = "''y''" and c = "CHR ''y''"
         and m = "''data-value=\"box\"''"
         and h = "\<lparr>whole = ''=\"box\"'', groups = [(1, ''box'')]\<rparr>"
         and v = "''box''" and ms = "[]"
         and pattern = "Seq (Str ''__NEXT_DATA__'') re_assigned_object"
         and scriptContent = "''__NEXT_DATA__ = {\"x\":1};''"
         and h' = "\<lparr>whole = ''__NEXT_DATA__ = {\"x\":1};'', groups = [(1, ''{\"x\":1}'')]\<rparr>"
         and captured = "''{\"x\":1}''" and parsed = "''{\"x\":1}''" and patterns = "[]"]
  from accepted e
  have "runtimeProbes demoPlatform ''u'' (''stock'' @ ''  '' @ ''price'') jsonLdPage
       = Inr (Some (''Found relevant JSON-LD data in '' @ ''u'',
                    \<lparr>snippet = cleanText (jsonStringify demoPlatform ''{\"x\":1}'') 1200,
                     score = 9 / 10\<rparr>))"
    by blast
  with c have 1: "runtimeProbes demoPlatform ''u'' ''stock  price'' jsonLdPage
       = Inr (Some (''Found relevant JSON-LD data in u'',
                    \<lparr>snippet = ''{\"x\":1}'', score = 9 / 10\<rparr>))"
    by (simp add: demoPlatform_def)
  from accepted have 2: "queryWords ''x'' = []"
    by blast
  from accepted e s i
  have "runtimeProbes demoPlatform ''u'' ''x'' jsonLdPage
       = Inr (Some (''Found relevant JSON-LD data in '' @ ''u'',
                    \<lparr>snippet = cleanText (jsonStringify demoPlatform ''{\"x\":1}'') 1200,
                     score = 9 / 10\<rparr>))"
    by blast
  with c have 3: "runtimeProbes demoPlatform ''u'' ''x'' jsonLdPage
       = Inr (Some (''Found relevant JSON-LD data in u'',
                    \<lparr>snippet = ''{\"x\":1}'', score = 9 / 10\<rparr>))"
    by (simp add: demoPlatform_def)
  from accepted d g
  have "probeDataAttrs ''u'' ''x'' [''data-value=\"box\"'']
       = (if ''box'' \<noteq> [] \<and> (queryMatches ''x'' ''box'' \<or> test False re_money ''box'')
          then Inr (Some (''Found relevant data attribute in '' @ ''u'' @ '': '' @ ''box'',
                          \<lparr>snippet = cleanText ''box'' 400, score = 85 / 100\<rparr>))
          else probeDataAttrs ''u'' ''x'' [])"
    by blast
  with dq c
  have 4: "probeDataAttrs ''u'' ''x'' [''data-value=\"box\"'']
       = Inr (Some (''Found relevant data attribute in u: box'',
                    \<lparr>snippet = ''box'', score = 85 / 100\<rparr>))"
    by (simp del: probeDataAttrs.simps)
  from accepted p g k
  have "probePatterns demoPlatform ''u'' ''x'' ''__NEXT_DATA__ = {\"x\":1};''
          [Seq (Str ''__NEXT_DATA__'') re_assigned_object]
       = (if queryMatches ''x'' (jsonStringify demoPlatform ''{\"x\":1}'')
          then Some (''Found relevant window variable data in '' @ ''u'',
                     \<lparr>snippet = cleanText (jsonStringify demoPlatform ''{\"x\":1}'') 1200,
                      score = 95 / 100\<rparr>)
          else probePatterns demoPlatform ''u'' ''x'' ''__NEXT_DATA__ = {\"x\":1};'' [])"
    by blast
  with pq c
  have 5: "probePatterns demoPlatform ''u'' ''x'' ''__NEXT_DATA__ = {\"x\":1};''
         [Seq (Str ''__NEXT_DATA__'') re_assigned_object]
       = Some (''Found relevant window variable data in u'',
               \<lparr>snippet = ''{\"x\":1}'', score = 95 / 100\<rparr>)"
    by (simp add: demoPlatform_def del: probePatterns.simps)
  from passed y k have 6: "\<not> queryMatches ''y'' ''{\"x\":1}''"
    by blast
  from passed
  have "probeJsonLd demoPlatform ''u'' ''y'' [''{\"x\":1}'']
       = (case find (\<lambda>j. queryMatches ''y'' (jsonStringify demoPlatform j)) [''{\"x\":1}''] of
            None \<Rightarrow> None
          | Some j \<Rightarrow> Some (''Found relevant JSON-LD data in '' @ ''u'',
                            \<lparr>snippet = cleanText (jsonStringify demoPlatform j) 1200,
                             score = 9 / 10\<rparr>))"
    by blast
  with 6 have 7: "probeJsonLd demoPlatform ''u'' ''y'' [''{\"x\":1}''] = None"
    by (simp add: demoPlatform_def del: probeJsonLd.simps)
  from tokens
  have "\<forall>t\<in>set (queryWords ''stock  price''). 2 \<le> length t \<and> list_all isWordChar t"
    by blast
  with q have 8: "list_all isWordChar ''stock''" "list_all isWordChar ''price''"
    by simp_all
  from e q n 1 2 3 4 5 6 7 8 show ?thesis
    by simp
qed

section \<open>Empty page bodies\<close>

lemma analyzeFetched_empty [simp]: "analyzeFetched (Some []) url query = None"
  by (simp add: analyzeFetched_def)

lemma visibleText_empty: "visibleText [] = []"
  by (simp add: eval_defs)

text \<open>
  Claim C10.  Markup that is the empty string is never analysed, although the analyzer
  would accept it for a query without tokens; the next tier runs instead.  After an
  empty body from the direct fetch the run goes on to the rendered fetch, in the top
  loop and in the link crawl; after an empty body from the rendered fetch it goes on to
  the embedded-state inspection (which renders again).
\<close>

theorem empty_body_treated_as_failure:
  "analyzeFetched (Some []) url query = None
   \<and> (queryWords query = [] \<longrightarrow>
        analyzeHtmlForQuery [] url query = Some \<lparr>snippet = [], score = 1\<rparr>)
   \<and> (url \<notin> visited s
        \<and> fst (fetchHtmlRequests W url
                 (push (''Processing '' @ url @ '' with multi-layer extraction'') (visit url s)))
            = Some [] \<longrightarrow>
        prefix (events s @ [Visit url, DirectFetch url, RenderFetch url])
               (events (snd (deepLoop P W query (url # others) s))))
   \<and> (url \<notin> visited s
        \<and> analyzeFetched
             (fst (fetchHtmlRequests W url
                     (push (''Processing '' @ url @ '' with multi-layer extraction'') (visit url s))))
             url query = None
        \<and> fst (fetchHtmlWithScraper W url
                 (snd (fetchHtmlRequests W url
                         (push (''Processing '' @ url @ '' with multi-layer extraction'')
                               (visit url s)))))
            = Some [] \<longrightarrow>
        prefix (events s @ [Visit url, DirectFetch url, RenderFetch url, RenderFetch url])
               (events (snd (deepLoop P W query (url # others) s))))
   \<and> (url \<notin> visited s
        \<and> fst (fetchHtmlRequests W url (visit url s)) = Some [] \<longrightarrow>
        prefix (events s @ [Visit url, DirectFetch url, RenderFetch url])
               (events (snd (crawlLoop P W query (url # others) s))))"
proof (intro conjI impI)
  show "analyzeFetched (Some []) url query = None"
    by simp
next
  assume "queryWords query = []"
  then show "analyzeHtmlForQuery [] url query = Some \<lparr>snippet = [], score = 1\<rparr>"
    by (simp add: analyzeHtmlForQuery_def visibleText_empty)
next
  assume "url \<notin> visited s
        \<and> fst (fetchHtmlRequests W url
                 (push (''Processing '' @ url @ '' with multi-layer extraction'') (visit url s)))
            = Some []"
  then show "prefix (events s @ [Visit url, DirectFetch url, RenderFetch url])
               (events (snd (deepLoop P W query (url # others) s)))"
    by (simp add: Let_def case_prod_beta split: option.split)
next
  assume "url \<notin> visited s
        \<and> analyzeFetched
             (fst (fetchHtmlRequests W url
                     (push (''Processing '' @ url @ '' with multi-layer extraction'') (visit url s))))
             url query = None
        \<and> fst (fetchHtmlWithScraper W url
                 (snd (fetchHtmlRequests W url
                         (push (''Processing '' @ url @ '' with multi-layer extraction'')
                               (visit url s)))))
            = Some []"
  then show "prefix (events s @ [Visit url, DirectFetch url, RenderFetch url, RenderFetch url])
               (events (snd (deepLoop P W query (url # others) s)))"
    by (simp add: Let_def case_prod_beta split: option.split)
next
  assume "url \<notin> visited s \<and> fst (fetchHtmlRequests W url (visit url s)) = Some []"
  then show "prefix (events s @ [Visit url, DirectFetch url, RenderFetch url])
               (events (snd (crawlLoop P W query (url # others) s)))"
    by (simp add: Let_def case_prod_beta split: option.split)
qed

theorem empty_body_treated_as_failure_witness:
  "queryWords ''?'' = []
   \<and> analyzeHtmlForQuery [] ''http://ex.com/a'' ''?'' = Some \<lparr>snippet = [], score = 1\<rparr>
   \<and> fst (fetchHtmlRequests emptyBodyWorld ''http://ex.com/a''
            (push (''Processing '' @ ''http://ex.com/a'' @ '' with multi-layer extraction'')
                  (visit ''http://ex.com/a'' newRun))) = Some []
   \<and> prefix [Visit ''http://ex.com/a'', DirectFetch ''http://ex.com/a'',
              RenderFetch ''http://ex.com/a'']
        (events (snd (deepLoop demoPlatform emptyBodyWorld ''?'' [''http://ex.com/a''] newRun)))
   \<and> \<not> found (fst (deepScrape demoPlatform emptyBodyWorld ''?'' newRun))"
proof -
  have q: "queryWords ''?'' = []"
    by (simp add: eval_defs)
  have v: "''http://ex.com/a'' \<notin> visited newRun"
    by (simp add: newRun_def)
  have f: "fst (fetchHtmlRequests emptyBodyWorld ''http://ex.com/a''
            (push (''Processing '' @ ''http://ex.com/a'' @ '' with multi-layer extraction'')
                  (visit ''http://ex.com/a'' newRun))) = Some []"
    by (simp add: fetchHtmlRequests_def emptyBodyWorld_def ok_def)
  have n: "\<not> found (fst (deepScrape demoPlatform emptyBodyWorld ''?'' newRun))"
    by (simp add: eval_defs)
  from empty_body_treated_as_failure
         [of "''http://ex.com/a''" "''?''" newRun emptyBodyWorld demoPlatform "[]"] q v f n
  show ?thesis
    by (simp add: newRun_def)
qed

section \<open>Link discovery\<close>

text \<open>What link discovery returns: at most six links, each with the base URL's host
  name and none of them visited.\<close>

lemma candidateLink_sound:
  "candidateLink P baseUrl d vis m = Inr (Some l) \<Longrightarrow> urlHostname P l = Inr d \<and> l \<notin> vis"
  by (simp add: candidateLink_def split: option.splits sum.splits if_splits)

lemma collectLinks_sound:
  "collectLinks P baseUrl d vis ms acc = Inr ls \<Longrightarrow>
     length acc < 6 \<Longrightarrow> (\<forall>l\<in>set acc. urlHostname P l = Inr d \<and> l \<notin> vis) \<Longrightarrow>
     length ls \<le> 6 \<and> (\<forall>l\<in>set ls. urlHostname P l = Inr d \<and> l \<notin> vis)"
proof (induction ms arbitrary: acc)
  case Nil
  then show ?case by simp
next
  case (Cons m ms)
  show ?case
  proof (cases "candidateLink P baseUrl d vis m")
    case (Inl msg)
    with Cons.prems(1) show ?thesis by simp
  next
    case (Inr c)
    show ?thesis
    proof (cases c)
      case None
      with Inr Cons.prems(1) have "collectLinks P baseUrl d vis ms acc = Inr ls"
        by simp
      from this Cons.prems(2,3) show ?thesis
        by (rule Cons.IH)
    next
      case (Some fullUrl)
      with Inr have q: "urlHostname P fullUrl = Inr d \<and> fullUrl \<notin> vis"
        by (simp add: candidateLink_sound)
      show ?thesis
      proof (cases "length (acc @ [fullUrl]) \<ge> 6")
        case True
        with Inr Some Cons.prems(1) have "ls = acc @ [fullUrl]"
          by (simp add: Let_def)
        with Cons.prems(2,3) q show ?thesis
          by simp
      next
        case False
        with Inr Some Cons.prems(1)
        have "collectLinks P baseUrl d vis ms (acc @ [fullUrl]) = Inr ls"
          by (simp add: Let_def)
        moreover have "length (acc @ [fullUrl]) < 6"
          using False by simp
        moreover have "\<forall>l\<in>set (acc @ [fullUrl]). urlHostname P l = Inr d \<and> l \<notin> vis"
          using Cons.prems(3) q by simp
        ultimately show ?thesis
          by (rule Cons.IH)
      qed
    qed
  qed
qed

lemma discoverLinks_sound:
  assumes "discoverLinks P baseUrl baseHtml vis = Inr ls"
  shows "length ls \<le> 6
         \<and> (\<forall>l\<in>set ls. urlHostname P l = urlHostname P baseUrl \<and> l \<notin> vis)"
proof (cases "urlHostname P baseUrl")
  case (Inl msg)
  with assms show ?thesis
    by (simp add: discoverLinks_def)
next
  case (Inr d)
  with assms have "collectLinks P baseUrl d vis (matchAll True re_anchor baseHtml) [] = Inr ls"
    by (simp add: discoverLinks_def)
  from collectLinks_sound [OF this] Inr show ?thesis
    by simp
qed

text \<open>
  Claim C7 says that link discovery returns at most six same-host, unvisited links
  (the lemmas above) and that malformed hrefs are passed over without aborting it.  The
  code passes over a malformed absolute href, not every malformed href: when an href
  starting with \<open>/\<close> does not resolve against the base URL (here \<open>//[\<close>), the exception
  leaves the loop, discovery yields no link at all, the good link behind it included, and
  the crawl of the page ends with the entry \<open>Internal crawl error: ...\<close>.
\<close>

theorem unresolvable_href_aborts_discovery:
  "urlHostname P baseUrl = Inr d \<and> urlResolve P ''//['' baseUrl = Inl msg \<longrightarrow>
     discoverLinks P baseUrl brokenLinkPage vis = Inl msg
     \<and> crawlInternalLinks P W baseUrl brokenLinkPage query s
         = (None, push (''Internal crawl error: '' @ msg)
                    (push (''Crawling internal links on '' @ baseUrl) s))"
proof
  assume h: "urlHostname P baseUrl = Inr d \<and> urlResolve P ''//['' baseUrl = Inl msg"
  have m: "matchAll True re_anchor brokenLinkPage = [''<a href=\"//[\">'', ''<a href=\"/ok\">'']"
    by (simp add: string_defs regex_defs re_anchor_def notGt_def brokenLinkPage_def)
  have e: "exec True re_href ''<a href=\"//[\">'' = Some \<lparr>whole = ''href=\"//[\"'', groups = [(1, ''//['')]\<rparr>"
    by (simp add: string_defs regex_defs re_href_def)
  from h m e have "discoverLinks P baseUrl brokenLinkPage vis = Inl msg" for vis
    by (simp add: discoverLinks_def candidateLink_def group_def)
  then show "discoverLinks P baseUrl brokenLinkPage vis = Inl msg
     \<and> crawlInternalLinks P W baseUrl brokenLinkPage query s
         = (None, push (''Internal crawl error: '' @ msg)
                    (push (''Crawling internal links on '' @ baseUrl) s))"
    by (simp add: crawlInternalLinks_def MAX_CRAWL_DEPTH_def)
qed

theorem unresolvable_href_aborts_discovery_witness:
  "urlHostname demoPlatform ''http://ex.com/a'' = Inr ''ex.com''
   \<and> urlResolve demoPlatform ''//['' ''http://ex.com/a'' = Inl ''Invalid URL''
   \<and> discoverLinks demoPlatform ''http://ex.com/a'' brokenLinkPage {} = Inl ''Invalid URL''
   \<and> discoverLinks demoPlatform ''http://ex.com/a'' skippedLinkPage {} = Inr [''http://ex.com/ok'']"
proof -
  have h: "urlHostname demoPlatform ''http://ex.com/a'' = Inr ''ex.com''"
    and r: "urlResolve demoPlatform ''//['' ''http://ex.com/a'' = Inl ''Invalid URL''"
    by (simp_all add: demoPlatform_def)
  have k: "discoverLinks demoPlatform ''http://ex.com/a'' skippedLinkPage {} = Inr [''http://ex.com/ok'']"
    by (simp add: eval_defs)
  from unresolvable_href_aborts_discovery
         [of demoPlatform "''http://ex.com/a''" "''ex.com''" "''Invalid URL''" "{}"] h r k
  show ?thesis
    by simp
qed


end
